theory Spec2Isabelle
  imports Complex_Main "HOL-Library.Multiset"
begin

section \<open>Data model (types.ts)\<close>

text \<open>
  JavaScript numbers are modelled as exact reals: the development is about the arithmetic
  the code writes down, not about IEEE rounding, overflow or NaN. Counters that the code
  only ever increments from 0 are natural numbers.
\<close>

record BoundingBox =
  x_min :: real
  y_min :: real
  x_max :: real
  y_max :: real

section \<open>Intersection over Union (utils/validationUtils.ts, calculateIou)\<close>

text \<open>
  The local constants of \<open>calculateIou\<close> are kept as definitions of their own, under the
  names the source gives them, so that properties of the divisor can be stated.
\<close>

definition interWidth :: "BoundingBox \<Rightarrow> BoundingBox \<Rightarrow> real" where
  "interWidth boxA boxB =
     (let xA = max (x_min boxA) (x_min boxB);
          xB = min (x_max boxA) (x_max boxB)
      in xB - xA)"

definition interHeight :: "BoundingBox \<Rightarrow> BoundingBox \<Rightarrow> real" where
  "interHeight boxA boxB =
     (let yA = max (y_min boxA) (y_min boxB);
          yB = min (y_max boxA) (y_max boxB)
      in yB - yA)"

definition interArea :: "BoundingBox \<Rightarrow> BoundingBox \<Rightarrow> real" where
  "interArea boxA boxB = interWidth boxA boxB * interHeight boxA boxB"

definition boxArea :: "BoundingBox \<Rightarrow> real" where
  "boxArea b = (x_max b - x_min b) * (y_max b - y_min b)"

text \<open>The divisor of the last line of \<open>calculateIou\<close>: \<open>boxAArea + boxBArea - interArea\<close>.\<close>

definition iouDivisor :: "BoundingBox \<Rightarrow> BoundingBox \<Rightarrow> real" where
  "iouDivisor boxA boxB = boxArea boxA + boxArea boxB - interArea boxA boxB"

definition calculateIou :: "BoundingBox \<Rightarrow> BoundingBox \<Rightarrow> real" where
  "calculateIou boxA boxB =
     (if interWidth boxA boxB \<le> 0 \<or> interHeight boxA boxB \<le> 0 then 0
      else interArea boxA boxB / iouDivisor boxA boxB)"


section \<open>Label normalization (utils/validationUtils.ts)\<close>

text \<open>
  Labels are strings of 8-bit characters. \<open>toLowerCase\<close> and \<open>toUpperCase\<close> map the 26 ASCII
  letters and leave every other character alone, which is what the JavaScript methods do on
  ASCII text; labels outside ASCII are outside the model.
\<close>


definition toLowerChar :: "char \<Rightarrow> char" where
  "toLowerChar c =
     (case map_of (zip ''ABCDEFGHIJKLMNOPQRSTUVWXYZ'' ''abcdefghijklmnopqrstuvwxyz'') c of
        Some l \<Rightarrow> l | None \<Rightarrow> c)"

definition toUpperChar :: "char \<Rightarrow> char" where
  "toUpperChar c =
     (case map_of (zip ''abcdefghijklmnopqrstuvwxyz'' ''ABCDEFGHIJKLMNOPQRSTUVWXYZ'') c of
        Some u \<Rightarrow> u | None \<Rightarrow> c)"

definition toLowerCase :: "string \<Rightarrow> string" where
  "toLowerCase s = map toLowerChar s"

definition toUpperCase :: "string \<Rightarrow> string" where
  "toUpperCase s = map toUpperChar s"

text \<open>\<open>s.includes(sub)\<close>: \<open>sub\<close> occurs in \<open>s\<close> as a contiguous run of characters.\<close>

primrec includes_str :: "string \<Rightarrow> string \<Rightarrow> bool" where
  "includes_str [] sub = (sub = [])"
| "includes_str (c # cs) sub = (take (length sub) (c # cs) = sub \<or> includes_str cs sub)"

definition normalizeAiType :: "string \<Rightarrow> string" where
  "normalizeAiType type' =
     (let lowerType = toLowerCase type' in
      if includes_str lowerType ''crack'' then ''Crack''
      else if includes_str lowerType ''pothole'' then ''Pothole''
      else type')"

text \<open>
  The expression \<open>d.type.charAt(0).toUpperCase() + d.type.slice(1).toLowerCase()\<close>, which
  \<open>compareDetections\<close> writes out at each of its four uses for a ground-truth label.
\<close>

definition normalizeGtType :: "string \<Rightarrow> string" where
  "normalizeGtType type' = toUpperCase (take 1 type') @ toLowerCase (drop 1 type')"

section \<open>Comparing detections with ground truth (compareDetections)\<close>

text \<open>
  Of a \<open>Defect\<close> only \<open>type\<close> and \<open>boundingBox\<close> are read; \<open>confidence\<close> stands for the
  fields that are carried along. \<open>ClassData\<close> is the value type of the local \<open>perClassData\<close>.
\<close>

record GroundTruthDefect =
  type :: string
  boundingBox :: BoundingBox

record Defect = GroundTruthDefect +
  confidence :: "real option"

record ClassData =
  tp :: nat
  fp :: nat
  fn :: nat
  iouSum :: real
  totalGroundTruth :: nat

record ClassMetrics =
  tp :: nat
  fp :: nat
  fn :: nat
  precision :: real
  recall :: real
  f1Score :: real
  totalGroundTruth :: nat

record Prf =
  precision :: real
  recall :: real
  f1Score :: real

record ValidationMetrics =
  matches :: nat
  misses :: nat
  falsePositives :: nat
  averageIou :: real
  precision :: real
  recall :: real
  f1Score :: real
  perClassMetrics :: "string \<rightharpoonup> ClassMetrics"

text \<open>
  Reading a property of \<open>undefined\<close> (\<open>perClassData[aiType].tp++\<close> on a missing key, or
  destructuring a missing \<open>perClassData[className]\<close>) throws a \<open>TypeError\<close>; it is the only
  way \<open>compareDetections\<close> can fail to return.
\<close>

datatype error = TypeError

definition calculatePrf :: "nat \<Rightarrow> nat \<Rightarrow> nat \<Rightarrow> Prf" where
  "calculatePrf tp' fp' fn' =
     (let precision' = (if tp' + fp' > 0 then real tp' / real (tp' + fp') else 0);
          recall' = (if tp' + fn' > 0 then real tp' / real (tp' + fn') else 0);
          f1Score' = (if precision' + recall' > 0
                      then 2 * (precision' * recall') / (precision' + recall') else 0)
      in \<lparr>Prf.precision = precision', Prf.recall = recall', Prf.f1Score = f1Score'\<rparr>)"

text \<open>
  A JavaScript \<open>Set\<close> keeps its elements in insertion order, without repetitions: a list,
  built by \<open>new Set(xs)\<close> from the first occurrences in \<open>xs\<close>.
\<close>

definition setAdd :: "'a list \<Rightarrow> 'a \<Rightarrow> 'a list" where
  "setAdd s x = (if x \<in> set s then s else s @ [x])"

definition newSet :: "'a list \<Rightarrow> 'a list" where
  "newSet xs = foldl setAdd [] xs"

text \<open>
  The initial accumulator of one category, and the loop that stores one for every name in
  \<open>allClasses\<close>.
\<close>

definition initClassData :: "GroundTruthDefect list \<Rightarrow> string \<Rightarrow> ClassData" where
  "initClassData gtDefects className =
     \<lparr>ClassData.tp = 0, ClassData.fp = 0, ClassData.fn = 0, ClassData.iouSum = 0,
      ClassData.totalGroundTruth =
        length (filter (\<lambda>d. normalizeGtType (type d) = className) gtDefects)\<rparr>"

definition initPerClassData ::
    "GroundTruthDefect list \<Rightarrow> string list \<Rightarrow> (string \<rightharpoonup> ClassData)" where
  "initPerClassData gtDefects allClasses =
     foldl (\<lambda>m className. m(className \<mapsto> initClassData gtDefects className))
       Map.empty allClasses"

text \<open>
  The inner \<open>gtDefects.forEach\<close>: \<open>considerGt\<close> is its body for one reference and its index,
  \<open>findBestMatch\<close> the whole loop, started from \<open>{ iou: -1, gtIndex: -1 }\<close>. The parameter
  \<open>matched\<close> is the current content of \<open>matchedGtIndices\<close>.
\<close>

record BestMatch =
  iou :: real
  gtIndex :: int

definition considerGt ::
    "int set \<Rightarrow> string \<Rightarrow> BoundingBox \<Rightarrow> BestMatch \<Rightarrow> nat \<times> GroundTruthDefect \<Rightarrow> BestMatch" where
  "considerGt matched aiType aiBox bestMatch p =
     (case p of (gtIndex', gtDefect) \<Rightarrow>
        let gtType = normalizeGtType (type gtDefect) in
        if int gtIndex' \<notin> matched \<and> gtType = aiType then
          let iou' = calculateIou aiBox (boundingBox gtDefect) in
          if iou' > iou bestMatch then \<lparr>iou = iou', gtIndex = int gtIndex'\<rparr> else bestMatch
        else bestMatch)"

definition findBestMatch :: "int set \<Rightarrow> GroundTruthDefect list \<Rightarrow> Defect \<Rightarrow> BestMatch" where
  "findBestMatch matched gtDefects aiDefect =
     foldl (considerGt matched (normalizeAiType (type aiDefect)) (boundingBox aiDefect))
       \<lparr>iou = - 1, gtIndex = - 1\<rparr> (enumerate 0 gtDefects)"

text \<open>
  The two locals the loops update. \<open>aiStep\<close> is the body of \<open>aiDefects.forEach\<close> and
  \<open>aiLoop\<close> the loop; \<open>fnStep\<close> and \<open>fnLoop\<close> are the second \<open>gtDefects.forEach\<close>, which
  counts the references left unmatched.
\<close>

record MatchState =
  matchedGtIndices :: "int set"
  perClassData :: "string \<rightharpoonup> ClassData"

definition aiStep ::
    "real \<Rightarrow> GroundTruthDefect list \<Rightarrow> MatchState \<Rightarrow> Defect \<Rightarrow> error + MatchState" where
  "aiStep iouThreshold gtDefects st aiDefect =
     (let aiType = normalizeAiType (type aiDefect);
          bestMatch = findBestMatch (matchedGtIndices st) gtDefects aiDefect
      in if iou bestMatch \<ge> iouThreshold then
           (case perClassData st aiType of
              None \<Rightarrow> Inl TypeError
            | Some d \<Rightarrow>
                Inr \<lparr>matchedGtIndices = insert (gtIndex bestMatch) (matchedGtIndices st),
                     perClassData = (perClassData st)(aiType \<mapsto>
                       d\<lparr>ClassData.tp := ClassData.tp d + 1,
                         ClassData.iouSum := ClassData.iouSum d + iou bestMatch\<rparr>)\<rparr>)
         else
           (case perClassData st aiType of
              None \<Rightarrow> Inr st
            | Some d \<Rightarrow>
                Inr (st\<lparr>perClassData := (perClassData st)(aiType \<mapsto>
                       d\<lparr>ClassData.fp := ClassData.fp d + 1\<rparr>)\<rparr>)))"

fun aiLoop ::
    "real \<Rightarrow> GroundTruthDefect list \<Rightarrow> Defect list \<Rightarrow> MatchState \<Rightarrow> error + MatchState" where
  "aiLoop iouThreshold gtDefects [] st = Inr st"
| "aiLoop iouThreshold gtDefects (aiDefect # rest) st =
     (case aiStep iouThreshold gtDefects st aiDefect of
        Inl e \<Rightarrow> Inl e
      | Inr st' \<Rightarrow> aiLoop iouThreshold gtDefects rest st')"

definition fnStep :: "MatchState \<Rightarrow> nat \<times> GroundTruthDefect \<Rightarrow> MatchState" where
  "fnStep st p =
     (case p of (gtIndex', gtDefect) \<Rightarrow>
        if int gtIndex' \<notin> matchedGtIndices st then
          let gtType = normalizeGtType (type gtDefect) in
          (case perClassData st gtType of
             None \<Rightarrow> st
           | Some d \<Rightarrow>
               st\<lparr>perClassData := (perClassData st)(gtType \<mapsto>
                    d\<lparr>ClassData.fn := ClassData.fn d + 1\<rparr>)\<rparr>)
        else st)"

definition fnLoop :: "GroundTruthDefect list \<Rightarrow> MatchState \<Rightarrow> MatchState" where
  "fnLoop gtDefects st = foldl fnStep st (enumerate 0 gtDefects)"

text \<open>
  The locals of the last loop over \<open>allClasses\<close> (\<open>classMetrics\<close> is the local
  \<open>perClassMetrics\<close>), the entry it stores for one category, and the loop.
\<close>

record Totals =
  classMetrics :: "string \<rightharpoonup> ClassMetrics"
  totalTp :: nat
  totalFp :: nat
  totalFn :: nat
  totalIouSum :: real

definition toClassMetrics :: "ClassData \<Rightarrow> ClassMetrics" where
  "toClassMetrics d =
     (let prf = calculatePrf (ClassData.tp d) (ClassData.fp d) (ClassData.fn d)
      in \<lparr>ClassMetrics.tp = ClassData.tp d, ClassMetrics.fp = ClassData.fp d,
          ClassMetrics.fn = ClassData.fn d, ClassMetrics.precision = Prf.precision prf,
          ClassMetrics.recall = Prf.recall prf, ClassMetrics.f1Score = Prf.f1Score prf,
          ClassMetrics.totalGroundTruth = ClassData.totalGroundTruth d\<rparr>)"

fun totalsLoop :: "MatchState \<Rightarrow> string list \<Rightarrow> Totals \<Rightarrow> error + Totals" where
  "totalsLoop st [] t = Inr t"
| "totalsLoop st (className # rest) t =
     (case perClassData st className of
        None \<Rightarrow> Inl TypeError
      | Some d \<Rightarrow>
          totalsLoop st rest
            \<lparr>classMetrics = (classMetrics t)(className \<mapsto> toClassMetrics d),
             totalTp = totalTp t + ClassData.tp d,
             totalFp = totalFp t + ClassData.fp d,
             totalFn = totalFn t + ClassData.fn d,
             totalIouSum = totalIouSum t + ClassData.iouSum d\<rparr>)"

text \<open>
  \<open>compareDetections\<close> itself. The threshold is an explicit argument; the source's default
  for it is 0.5.
\<close>

definition allClassesOf :: "Defect list \<Rightarrow> GroundTruthDefect list \<Rightarrow> string list" where
  "allClassesOf aiDefects gtDefects =
     (let gtClasses = newSet (map (\<lambda>d. normalizeGtType (type d)) gtDefects);
          aiClasses = newSet (map (\<lambda>d. normalizeAiType (type d)) aiDefects)
      in newSet (gtClasses @ aiClasses))"

definition compareDetections ::
    "Defect list \<Rightarrow> GroundTruthDefect list \<Rightarrow> real \<Rightarrow> error + ValidationMetrics" where
  "compareDetections aiDefects gtDefects iouThreshold =
     (let allClasses = allClassesOf aiDefects gtDefects;
          st0 = \<lparr>matchedGtIndices = {}, perClassData = initPerClassData gtDefects allClasses\<rparr>
      in case aiLoop iouThreshold gtDefects aiDefects st0 of
           Inl e \<Rightarrow> Inl e
         | Inr st \<Rightarrow>
             (case totalsLoop (fnLoop gtDefects st) allClasses
                     \<lparr>classMetrics = Map.empty, totalTp = 0, totalFp = 0, totalFn = 0,
                      totalIouSum = 0\<rparr> of
                Inl e \<Rightarrow> Inl e
              | Inr t \<Rightarrow>
                  let overallMetrics = calculatePrf (totalTp t) (totalFp t) (totalFn t)
                  in Inr \<lparr>matches = totalTp t,
                          misses = totalFn t,
                          falsePositives = totalFp t,
                          averageIou = (if totalTp t > 0 then totalIouSum t / real (totalTp t) else 0),
                          ValidationMetrics.precision = Prf.precision overallMetrics,
                          ValidationMetrics.recall = Prf.recall overallMetrics,
                          ValidationMetrics.f1Score = Prf.f1Score overallMetrics,
                          perClassMetrics = classMetrics t\<rparr>))"

section \<open>Track interpolation (utils/gpxParser.ts, components/VideoAnalysis.tsx)\<close>

text \<open>
  A point's \<open>time\<close> is \<open>time.getTime()\<close>, milliseconds since the epoch. Of \<open>parseGpx\<close> the
  final sort of the parsed points is modelled (\<open>sortByTime\<close>): \<open>Array.prototype.sort\<close> with
  the comparator \<open>a.time.getTime() - b.time.getTime()\<close> is a stable ascending sort.
  \<open>findBracket\<close> is the \<open>for\<close> loop of \<open>interpolateLocation\<close>, which stops at the first pair of
  neighbours around the target.
\<close>


record GpxPoint =
  lat :: real
  lon :: real
  time :: real

record Location =
  latitude :: real
  longitude :: real


fun findBracket :: "real \<Rightarrow> GpxPoint list \<Rightarrow> (GpxPoint \<times> GpxPoint) option" where
  "findBracket targetTime (a # b # rest) =
     (if time a \<le> targetTime \<and> time b \<ge> targetTime then Some (a, b)
      else findBracket targetTime (b # rest))"
| "findBracket targetTime _ = None"

definition interpolateLocation :: "real \<Rightarrow> GpxPoint list \<Rightarrow> real \<Rightarrow> Location option" where
  "interpolateLocation timestamp track videoStartTime =
     (if length track = 0 then None
      else
        let targetTime = videoStartTime + (timestamp * 1000) in
        case findBracket targetTime track of
          None \<Rightarrow>
            if targetTime < time (track ! 0)
            then Some \<lparr>latitude = lat (track ! 0), longitude = lon (track ! 0)\<rparr>
            else Some \<lparr>latitude = lat (track ! (length track - 1)),
                       longitude = lon (track ! (length track - 1))\<rparr>
        | Some (p1, p2) \<Rightarrow>
            let timeDiff = time p2 - time p1 in
            if timeDiff = 0 then Some \<lparr>latitude = lat p1, longitude = lon p1\<rparr>
            else
              let factor = (targetTime - time p1) / timeDiff;
                  lat' = lat p1 + (lat p2 - lat p1) * factor;
                  lon' = lon p1 + (lon p2 - lon p1) * factor
              in Some \<lparr>latitude = lat', longitude = lon'\<rparr>)"

section \<open>Notions used to state the properties\<close>



text \<open>Linear interpolation between two track points at a target time; the first point's
  coordinate when the two timestamps are equal.\<close>

definition lerp :: "real \<Rightarrow> GpxPoint \<Rightarrow> GpxPoint \<Rightarrow> Location" where
  "lerp target p1 p2 =
     (if time p2 = time p1 then \<lparr>latitude = lat p1, longitude = lon p1\<rparr>
      else \<lparr>latitude = lat p1 + (lat p2 - lat p1) * ((target - time p1) / (time p2 - time p1)),
            longitude = lon p1 + (lon p2 - lon p1) * ((target - time p1) / (time p2 - time p1))\<rparr>)"

text \<open>The neighbours at positions \<open>i\<close> and \<open>i + 1\<close> bracket the target.\<close>

definition brackets :: "real \<Rightarrow> GpxPoint list \<Rightarrow> nat \<Rightarrow> bool" where
  "brackets target track i \<longleftrightarrow>
     Suc i < length track \<and> time (track ! i) \<le> target \<and> target \<le> time (track ! Suc i)"

text \<open>
  The record of the detection loop of \<open>compareDetections\<close>: for each detection in order, the
  best match it was counted a true positive with, or \<open>None\<close> when it was counted a false
  positive. The decision is the loop body's: \<open>findBestMatch\<close> over the references not yet
  consumed, then the test against the threshold.
\<close>

fun decisions :: "real \<Rightarrow> GroundTruthDefect list \<Rightarrow> int set \<Rightarrow> Defect list \<Rightarrow> BestMatch option list" where
  "decisions iouThreshold gtDefects matched [] = []"
| "decisions iouThreshold gtDefects matched (aiDefect # rest) =
     (let bestMatch = findBestMatch matched gtDefects aiDefect in
      if iou bestMatch \<ge> iouThreshold
      then Some bestMatch # decisions iouThreshold gtDefects (insert (gtIndex bestMatch) matched) rest
      else None # decisions iouThreshold gtDefects matched rest)"

text \<open>The true positives of such a record, in order.\<close>

fun matchesOf :: "BestMatch option list \<Rightarrow> BestMatch list" where
  "matchesOf [] = []"
| "matchesOf (None # rest) = matchesOf rest"
| "matchesOf (Some b # rest) = b # matchesOf rest"

text \<open>A best match that names a reference: in range, not consumed, of the detection's
  category, carrying the IoU of the pair.\<close>

definition validMatch :: "int set \<Rightarrow> GroundTruthDefect list \<Rightarrow> Defect \<Rightarrow> BestMatch \<Rightarrow> bool" where
  "validMatch matched gts d bm \<longleftrightarrow>
     0 \<le> gtIndex bm \<and> nat (gtIndex bm) < length gts \<and> gtIndex bm \<notin> matched
     \<and> normalizeGtType (type (gts ! nat (gtIndex bm))) = normalizeAiType (type d)
     \<and> iou bm = calculateIou (boundingBox d) (boundingBox (gts ! nat (gtIndex bm)))"

text \<open>The state in which the detection loop starts.\<close>

definition initialState :: "Defect list \<Rightarrow> GroundTruthDefect list \<Rightarrow> MatchState" where
  "initialState ais gts =
     \<lparr>matchedGtIndices = {}, perClassData = initPerClassData gts (allClassesOf ais gts)\<rparr>"

text \<open>The sum of one counter of \<open>perClassData\<close> over a list of category names.\<close>

definition total :: "(ClassData \<Rightarrow> 'a::comm_monoid_add) \<Rightarrow> string list \<Rightarrow> (string \<rightharpoonup> ClassData) \<Rightarrow> 'a" where
  "total f cs m = sum_list (map (\<lambda>c. case m c of None \<Rightarrow> 0 | Some d \<Rightarrow> f d) cs)"

text \<open>The harmonic mean of two positive numbers.\<close>

definition harmonicMean :: "real \<Rightarrow> real \<Rightarrow> real" where
  "harmonicMean p r = 2 / (1 / p + 1 / r)"

section \<open>Properties of calculateIou\<close>

lemma interWidth_le_left: "interWidth a b \<le> x_max a - x_min a"
  by (simp add: interWidth_def Let_def min_def max_def)

lemma interWidth_le_right: "interWidth a b \<le> x_max b - x_min b"
  by (simp add: interWidth_def Let_def min_def max_def)

lemma interHeight_le_left: "interHeight a b \<le> y_max a - y_min a"
  by (simp add: interHeight_def Let_def min_def max_def)

lemma interHeight_le_right: "interHeight a b \<le> y_max b - y_min b"
  by (simp add: interHeight_def Let_def min_def max_def)


lemma interArea_le_left:
  assumes "0 < interWidth a b" and "0 < interHeight a b"
  shows "interArea a b \<le> boxArea a"
  unfolding interArea_def boxArea_def
  using assms interWidth_le_left [of a b] interHeight_le_left [of a b]
  by (intro mult_mono) simp_all

lemma interArea_le_right:
  assumes "0 < interWidth a b" and "0 < interHeight a b"
  shows "interArea a b \<le> boxArea b"
  unfolding interArea_def boxArea_def
  using assms interWidth_le_right [of a b] interHeight_le_right [of a b]
  by (intro mult_mono) simp_all

lemma iouDivisor_pos:
  assumes "0 < interWidth a b" and "0 < interHeight a b"
  shows "0 < iouDivisor a b"
proof -
  have "0 < interArea a b"
    unfolding interArea_def using assms by simp
  moreover have "interArea a b \<le> boxArea a" "interArea a b \<le> boxArea b"
    using assms by (rule interArea_le_left, rule interArea_le_right)
  ultimately show ?thesis
    unfolding iouDivisor_def by linarith
qed

lemma calculateIou_nonneg: "0 \<le> calculateIou a b"
proof (cases "interWidth a b \<le> 0 \<or> interHeight a b \<le> 0")
  case True
  then show ?thesis by (simp add: calculateIou_def)
next
  case False
  then have pos: "0 < interWidth a b" "0 < interHeight a b" by simp_all
  have "0 \<le> interArea a b" unfolding interArea_def using pos by simp
  moreover have "0 < iouDivisor a b" using pos by (rule iouDivisor_pos)
  ultimately show ?thesis using False by (simp add: calculateIou_def)
qed



text \<open>
  Claim C9. Under exact arithmetic IoU is symmetric, \<open>IoU(A, B) = IoU(B, A)\<close> for all boxes,
  and \<open>IoU(A, A) = 1\<close> for every box of positive width and positive height.
\<close>

theorem calculateIou_symmetric_self:
  "calculateIou a b = calculateIou b a
   \<and> (x_min a < x_max a \<and> y_min a < y_max a \<longrightarrow> calculateIou a a = 1)"
proof (intro conjI impI)
  have "interWidth a b = interWidth b a" "interHeight a b = interHeight b a"
    by (simp_all add: interWidth_def interHeight_def Let_def min.commute max.commute)
  then show "calculateIou a b = calculateIou b a"
    by (simp add: calculateIou_def iouDivisor_def interArea_def)
next
  assume pos: "x_min a < x_max a \<and> y_min a < y_max a"
  have w: "interWidth a a = x_max a - x_min a" and h: "interHeight a a = y_max a - y_min a"
    by (simp_all add: interWidth_def interHeight_def)
  have area: "interArea a a = boxArea a" "iouDivisor a a = boxArea a"
    by (simp_all add: iouDivisor_def interArea_def boxArea_def w h)
  have "0 < boxArea a"
    unfolding boxArea_def using pos by simp
  then show "calculateIou a a = 1"
    using pos by (simp add: calculateIou_def area w h)
qed

theorem calculateIou_symmetric_self_witness:
  "calculateIou \<lparr>x_min = 0, y_min = 0, x_max = 2, y_max = 2\<rparr>
                \<lparr>x_min = 1, y_min = 1, x_max = 3, y_max = 3\<rparr>
     = calculateIou \<lparr>x_min = 1, y_min = 1, x_max = 3, y_max = 3\<rparr>
                    \<lparr>x_min = 0, y_min = 0, x_max = 2, y_max = 2\<rparr>
   \<and> x_min \<lparr>x_min = 1/10, y_min = 1/10, x_max = 3/10, y_max = 3/10\<rparr>
       < x_max \<lparr>x_min = 1/10, y_min = 1/10, x_max = 3/10, y_max = 3/10\<rparr>
   \<and> y_min \<lparr>x_min = 1/10, y_min = 1/10, x_max = 3/10, y_max = 3/10\<rparr>
       < y_max \<lparr>x_min = 1/10, y_min = 1/10, x_max = 3/10, y_max = 3/10\<rparr>
   \<and> calculateIou \<lparr>x_min = 1/10, y_min = 1/10, x_max = 3/10, y_max = 3/10\<rparr>
                    \<lparr>x_min = 1/10, y_min = 1/10, x_max = 3/10, y_max = 3/10\<rparr> = 1"
proof -
  let ?a = "\<lparr>x_min = 0, y_min = 0, x_max = 2, y_max = 2\<rparr>"
  let ?b = "\<lparr>x_min = 1, y_min = 1, x_max = 3, y_max = 3\<rparr>"
  let ?c = "\<lparr>x_min = 1/10, y_min = 1/10, x_max = 3/10, y_max = 3/10\<rparr>"
  have s: "calculateIou ?a ?b = calculateIou ?b ?a"
    using calculateIou_symmetric_self [of ?a ?b] by blast
  have p: "x_min ?c < x_max ?c \<and> y_min ?c < y_max ?c"
    by simp
  have "calculateIou ?c ?c = 1"
    using calculateIou_symmetric_self [of ?c ?c] p by blast
  with s p show ?thesis by blast
qed

section \<open>Properties of label normalization\<close>







section \<open>Properties of track interpolation\<close>

lemma findBracket_first:
  "brackets t track i \<Longrightarrow> (\<forall>j<i. \<not> brackets t track j)
     \<Longrightarrow> findBracket t track = Some (track ! i, track ! Suc i)"
proof (induction t track arbitrary: i rule: findBracket.induct)
  case (1 t a b rest)
  show ?case
  proof (cases i)
    case 0
    with "1.prems" show ?thesis by (simp add: brackets_def)
  next
    case (Suc k)
    with "1.prems" have nb: "\<not> (time a \<le> t \<and> time b \<ge> t)"
      by (auto simp: brackets_def)
    have bk: "brackets t (b # rest) k"
      using "1.prems"(1) Suc by (simp add: brackets_def)
    have "\<forall>j<k. \<not> brackets t (b # rest) j"
    proof (intro allI impI)
      fix j assume "j < k"
      then have "\<not> brackets t (a # b # rest) (Suc j)"
        using "1.prems"(2) Suc by simp
      then show "\<not> brackets t (b # rest) j"
        by (simp add: brackets_def)
    qed
    with "1.IH" [OF nb bk] have "findBracket t (b # rest) = Some ((b # rest) ! k, (b # rest) ! Suc k)"
      by simp
    with nb Suc show ?thesis by auto
  qed
qed (simp_all add: brackets_def)

lemma findBracket_None:
  "(\<forall>p\<in>set track. \<not> time p \<le> t) \<or> (\<forall>p\<in>set track. \<not> t \<le> time p)
     \<Longrightarrow> findBracket t track = None"
  by (induction t track rule: findBracket.induct) auto

lemma interpolate_found:
  assumes "findBracket (v + ts * 1000) track = Some (p1, p2)"
  shows "interpolateLocation ts track v = Some (lerp (v + ts * 1000) p1 p2)"
proof -
  have "track \<noteq> []" using assms by auto
  then show ?thesis using assms
    by (simp add: interpolateLocation_def lerp_def Let_def)
qed

lemma sorted_hd_min: "sorted (map time track) \<Longrightarrow> p \<in> set track \<Longrightarrow> time (hd track) \<le> time p"
  by (cases track) auto

lemma sorted_last_max: "sorted (map time track) \<Longrightarrow> p \<in> set track \<Longrightarrow> time p \<le> time (last track)"
  by (induction track) (auto split: if_splits)




lemma lerp_at_end:
  assumes "time p1 < time p2"
  shows "lerp (time p2) p1 p2 = \<lparr>latitude = lat p2, longitude = lon p2\<rparr>"
  using assms by (simp add: lerp_def)

lemma lerp_at_start:
  "lerp (time p1) p1 p2 = \<lparr>latitude = lat p1, longitude = lon p1\<rparr>"
  by (simp add: lerp_def)

lemma first_bracket_exists:
  assumes "brackets t track i"
  shows "\<exists>j\<le>i. brackets t track j \<and> (\<forall>k<j. \<not> brackets t track k)"
proof -
  define j where "j = (LEAST j. brackets t track j)"
  have "brackets t track j" unfolding j_def using assms by (rule LeastI)
  moreover have "j \<le> i" unfolding j_def using assms by (rule Least_le)
  moreover have "\<forall>k<j. \<not> brackets t track k"
    unfolding j_def using not_less_Least by blast
  ultimately show ?thesis by blast
qed

lemma interpolate_strict:
  assumes strict: "sorted_wrt (<) (map time track)" and br: "brackets t track i"
    and t: "t = v + ts * 1000"
  shows "interpolateLocation ts track v = Some (lerp t (track ! i) (track ! Suc i))"
proof -
  obtain j where j: "j \<le> i" "brackets t track j" "\<forall>k<j. \<not> brackets t track k"
    using first_bracket_exists [OF br] by blast
  have res: "interpolateLocation ts track v = Some (lerp t (track ! j) (track ! Suc j))"
    using findBracket_first [OF j(2) j(3)] unfolding t by (rule interpolate_found)
  have mono: "\<And>a b. a < b \<Longrightarrow> b < length track \<Longrightarrow> time (track ! a) < time (track ! b)"
    using strict by (simp add: sorted_wrt_iff_nth_less)
  show ?thesis
  proof (cases "j = i")
    case True
    with res show ?thesis by simp
  next
    case False
    with j(1) have lt: "j < i" by simp
    have len: "Suc i < length track" using br by (simp add: brackets_def)
    have a: "t \<le> time (track ! Suc j)" using j(2) by (simp add: brackets_def)
    have b: "time (track ! i) \<le> t" using br by (simp add: brackets_def)
    have "Suc j = i"
    proof (rule ccontr)
      assume "Suc j \<noteq> i"
      with lt have "Suc j < i" by simp
      then have "time (track ! Suc j) < time (track ! i)" using mono len by simp
      with a b show False by simp
    qed
    then have ti: "time (track ! i) = t" using a b by simp
    have "time (track ! j) < time (track ! i)" using mono [of j i] lt len by simp
    then have "lerp t (track ! j) (track ! Suc j) = \<lparr>latitude = lat (track ! i), longitude = lon (track ! i)\<rparr>"
      using lerp_at_end [of "track ! j" "track ! i"] ti \<open>Suc j = i\<close> by simp
    moreover have "lerp t (track ! i) (track ! Suc i) = \<lparr>latitude = lat (track ! i), longitude = lon (track ! i)\<rparr>"
      using lerp_at_start [of "track ! i" "track ! Suc i"] ti by simp
    ultimately show ?thesis using res by simp
  qed
qed

text \<open>
  Claim C7, as amended. When consecutive track points bracket the target time, the
  interpolator returns the linear interpolation (\<open>lerp\<close>: the first point's coordinate when
  the two timestamps are equal) between the first bracketing pair in track order; and when
  the timestamps are strictly increasing, between any bracketing pair. With the track
  \<open>[(0, 0, T0), (10, 10, T0 + 10 s)]\<close> the location 5 seconds after \<open>T0\<close> is \<open>(5, 5)\<close>.
\<close>

theorem interpolateLocation_bracketed:
  "(brackets (videoStartTime + timestamp * 1000) track i
      \<and> (\<forall>j<i. \<not> brackets (videoStartTime + timestamp * 1000) track j)
     \<longrightarrow> interpolateLocation timestamp track videoStartTime
           = Some (lerp (videoStartTime + timestamp * 1000) (track ! i) (track ! Suc i)))
   \<and> (sorted_wrt (<) (map time track) \<and> brackets (videoStartTime + timestamp * 1000) track i
     \<longrightarrow> interpolateLocation timestamp track videoStartTime
           = Some (lerp (videoStartTime + timestamp * 1000) (track ! i) (track ! Suc i)))
   \<and> interpolateLocation 5
        [\<lparr>lat = 0, lon = 0, time = T0\<rparr>, \<lparr>lat = 10, lon = 10, time = T0 + 10000\<rparr>] T0
        = Some \<lparr>latitude = 5, longitude = 5\<rparr>"
proof (intro conjI impI)
  assume a: "brackets (videoStartTime + timestamp * 1000) track i
      \<and> (\<forall>j<i. \<not> brackets (videoStartTime + timestamp * 1000) track j)"
  show "interpolateLocation timestamp track videoStartTime
           = Some (lerp (videoStartTime + timestamp * 1000) (track ! i) (track ! Suc i))"
    using findBracket_first [of "videoStartTime + timestamp * 1000" track i] a
    by (intro interpolate_found) blast
next
  assume "sorted_wrt (<) (map time track) \<and> brackets (videoStartTime + timestamp * 1000) track i"
  then show "interpolateLocation timestamp track videoStartTime
           = Some (lerp (videoStartTime + timestamp * 1000) (track ! i) (track ! Suc i))"
    using interpolate_strict [of track "videoStartTime + timestamp * 1000" i videoStartTime timestamp]
    by blast
next
  show "interpolateLocation 5
        [\<lparr>lat = 0, lon = 0, time = T0\<rparr>, \<lparr>lat = 10, lon = 10, time = T0 + 10000\<rparr>] T0
        = Some \<lparr>latitude = 5, longitude = 5\<rparr>"
    by (simp add: interpolateLocation_def)
qed

theorem interpolateLocation_bracketed_witness:
  "brackets (0 + 10 * 1000)
     [\<lparr>lat = 0, lon = 0, time = 0\<rparr>, \<lparr>lat = 1, lon = 1, time = 10000\<rparr>,
      \<lparr>lat = 2, lon = 2, time = 10000\<rparr>, \<lparr>lat = 3, lon = 3, time = 20000\<rparr>] 0
   \<and> interpolateLocation 10
     [\<lparr>lat = 0, lon = 0, time = 0\<rparr>, \<lparr>lat = 1, lon = 1, time = 10000\<rparr>,
      \<lparr>lat = 2, lon = 2, time = 10000\<rparr>, \<lparr>lat = 3, lon = 3, time = 20000\<rparr>] 0
     = Some \<lparr>latitude = 1, longitude = 1\<rparr>
   \<and> sorted_wrt (<) (map time [\<lparr>lat = 0, lon = 0, time = 0\<rparr>, \<lparr>lat = 4, lon = 8, time = 8000\<rparr>])
   \<and> brackets (0 + 2 * 1000) [\<lparr>lat = 0, lon = 0, time = 0\<rparr>, \<lparr>lat = 4, lon = 8, time = 8000\<rparr>] 0
   \<and> interpolateLocation 2 [\<lparr>lat = 0, lon = 0, time = 0\<rparr>, \<lparr>lat = 4, lon = 8, time = 8000\<rparr>] 0
     = Some \<lparr>latitude = 1, longitude = 2\<rparr>"
proof -
  let ?tr = "[\<lparr>lat = 0, lon = 0, time = 0\<rparr>, \<lparr>lat = 1, lon = 1, time = 10000\<rparr>,
      \<lparr>lat = 2, lon = 2, time = 10000\<rparr>, \<lparr>lat = 3, lon = 3, time = 20000\<rparr>]"
  let ?tr2 = "[\<lparr>lat = 0, lon = 0, time = 0\<rparr>, \<lparr>lat = 4, lon = 8, time = 8000\<rparr>]"
  have b: "brackets (0 + 10 * 1000) ?tr 0"
    by (simp add: brackets_def)
  have f: "\<forall>j<(0::nat). \<not> brackets (0 + 10 * 1000) ?tr j"
    by simp
  have "interpolateLocation 10 ?tr 0 = Some (lerp (0 + 10 * 1000) (?tr ! 0) (?tr ! Suc 0))"
    using interpolateLocation_bracketed [of 0 10 ?tr 0] b f by blast
  then have r: "interpolateLocation 10 ?tr 0 = Some \<lparr>latitude = 1, longitude = 1\<rparr>"
    by (simp add: lerp_def)
  have s: "sorted_wrt (<) (map time ?tr2)" by simp
  have b2: "brackets (0 + 2 * 1000) ?tr2 0"
    by (simp add: brackets_def)
  have "interpolateLocation 2 ?tr2 0 = Some (lerp (0 + 2 * 1000) (?tr2 ! 0) (?tr2 ! Suc 0))"
    using interpolateLocation_bracketed [of 0 2 ?tr2 0] s b2 by blast
  then have r2: "interpolateLocation 2 ?tr2 0 = Some \<lparr>latitude = 1, longitude = 2\<rparr>"
    by (simp add: lerp_def)
  from b r s b2 r2 show ?thesis by blast
qed

theorem interpolateLocation_later_pair_counterexample:
  "sorted (map time
     [\<lparr>lat = 0, lon = 0, time = 0\<rparr>, \<lparr>lat = 1, lon = 1, time = 10000\<rparr>,
      \<lparr>lat = 2, lon = 2, time = 10000\<rparr>, \<lparr>lat = 3, lon = 3, time = 20000\<rparr>])
   \<and> brackets (0 + 10 * 1000)
     [\<lparr>lat = 0, lon = 0, time = 0\<rparr>, \<lparr>lat = 1, lon = 1, time = 10000\<rparr>,
      \<lparr>lat = 2, lon = 2, time = 10000\<rparr>, \<lparr>lat = 3, lon = 3, time = 20000\<rparr>] 2
   \<and> lerp (0 + 10 * 1000) \<lparr>lat = 2, lon = 2, time = 10000\<rparr> \<lparr>lat = 3, lon = 3, time = 20000\<rparr>
       = \<lparr>latitude = 2, longitude = 2\<rparr>
   \<and> interpolateLocation 10
     [\<lparr>lat = 0, lon = 0, time = 0\<rparr>, \<lparr>lat = 1, lon = 1, time = 10000\<rparr>,
      \<lparr>lat = 2, lon = 2, time = 10000\<rparr>, \<lparr>lat = 3, lon = 3, time = 20000\<rparr>] 0
     = Some \<lparr>latitude = 1, longitude = 1\<rparr>
   \<and> interpolateLocation 10
     [\<lparr>lat = 0, lon = 0, time = 0\<rparr>, \<lparr>lat = 1, lon = 1, time = 10000\<rparr>,
      \<lparr>lat = 2, lon = 2, time = 10000\<rparr>, \<lparr>lat = 3, lon = 3, time = 20000\<rparr>] 0
     \<noteq> Some (lerp (0 + 10 * 1000) \<lparr>lat = 2, lon = 2, time = 10000\<rparr>
                \<lparr>lat = 3, lon = 3, time = 20000\<rparr>)"
  by (simp add: brackets_def lerp_def interpolateLocation_def)

text \<open>
  Claim C8. On a non-empty track sorted by timestamp, a target strictly before the first
  point's timestamp resolves to the first point's coordinate, and a target strictly after
  the last point's timestamp resolves to the last point's coordinate. With the single-point
  track \<open>[(1, 1, T0)]\<close> the location 100 seconds before \<open>T0\<close> is \<open>(1, 1)\<close>.
\<close>

theorem interpolateLocation_clamp:
  "(sorted (map time track) \<and> track \<noteq> []
      \<and> videoStartTime + timestamp * 1000 < time (hd track)
     \<longrightarrow> interpolateLocation timestamp track videoStartTime
           = Some \<lparr>latitude = lat (hd track), longitude = lon (hd track)\<rparr>)
   \<and> (sorted (map time track) \<and> track \<noteq> []
      \<and> time (last track) < videoStartTime + timestamp * 1000
     \<longrightarrow> interpolateLocation timestamp track videoStartTime
           = Some \<lparr>latitude = lat (last track), longitude = lon (last track)\<rparr>)
   \<and> interpolateLocation (- 100) [\<lparr>lat = 1, lon = 1, time = T0\<rparr>] T0
        = Some \<lparr>latitude = 1, longitude = 1\<rparr>"
proof (intro conjI impI)
  let ?t = "videoStartTime + timestamp * 1000"
  assume a: "sorted (map time track) \<and> track \<noteq> [] \<and> ?t < time (hd track)"
  then have srt: "sorted (map time track)" and ne: "track \<noteq> []"
    and before: "?t < time (hd track)" by simp_all
  have "\<forall>p\<in>set track. \<not> time p \<le> ?t"
    using sorted_hd_min [OF srt] before by fastforce
  then have "findBracket ?t track = None"
    by (simp add: findBracket_None)
  then show "interpolateLocation timestamp track videoStartTime
      = Some \<lparr>latitude = lat (hd track), longitude = lon (hd track)\<rparr>"
    using ne before by (simp add: interpolateLocation_def hd_conv_nth)
next
  let ?t = "videoStartTime + timestamp * 1000"
  assume a: "sorted (map time track) \<and> track \<noteq> [] \<and> time (last track) < ?t"
  then have srt: "sorted (map time track)" and ne: "track \<noteq> []"
    and after: "time (last track) < ?t" by simp_all
  have "\<forall>p\<in>set track. \<not> ?t \<le> time p"
    using sorted_last_max [OF srt] after by fastforce
  then have nb: "findBracket ?t track = None"
    by (simp add: findBracket_None)
  have "time (hd track) \<le> time (last track)"
    using sorted_hd_min [OF srt, of "last track"] ne by simp
  then have "\<not> ?t < time (track ! 0)"
    using after ne by (simp add: hd_conv_nth)
  then show "interpolateLocation timestamp track videoStartTime
      = Some \<lparr>latitude = lat (last track), longitude = lon (last track)\<rparr>"
    using ne nb by (simp add: interpolateLocation_def last_conv_nth)
next
  show "interpolateLocation (- 100) [\<lparr>lat = 1, lon = 1, time = T0\<rparr>] T0
        = Some \<lparr>latitude = 1, longitude = 1\<rparr>"
    by (simp add: interpolateLocation_def)
qed

theorem interpolateLocation_clamp_witness:
  "sorted (map time [\<lparr>lat = 1, lon = 1, time = 1000\<rparr>, \<lparr>lat = 2, lon = 3, time = 2000\<rparr>])
   \<and> [\<lparr>lat = 1, lon = 1, time = 1000\<rparr>, \<lparr>lat = 2, lon = 3, time = 2000\<rparr>] \<noteq> []
   \<and> 1000 + (- 100) * 1000
       < time (hd [\<lparr>lat = 1, lon = 1, time = 1000\<rparr>, \<lparr>lat = 2, lon = 3, time = 2000\<rparr>])
   \<and> interpolateLocation (- 100)
        [\<lparr>lat = 1, lon = 1, time = 1000\<rparr>, \<lparr>lat = 2, lon = 3, time = 2000\<rparr>] 1000
       = Some \<lparr>latitude = 1, longitude = 1\<rparr>
   \<and> time (last [\<lparr>lat = 1, lon = 1, time = 1000\<rparr>, \<lparr>lat = 2, lon = 3, time = 2000\<rparr>])
       < 1000 + 5 * 1000
   \<and> interpolateLocation 5
        [\<lparr>lat = 1, lon = 1, time = 1000\<rparr>, \<lparr>lat = 2, lon = 3, time = 2000\<rparr>] 1000
       = Some \<lparr>latitude = 2, longitude = 3\<rparr>"
proof -
  let ?tr = "[\<lparr>lat = 1, lon = 1, time = 1000\<rparr>, \<lparr>lat = 2, lon = 3, time = 2000\<rparr>]"
  have s: "sorted (map time ?tr)" and n: "?tr \<noteq> []" by simp_all
  have b: "1000 + (- 100) * 1000 < time (hd ?tr)" by simp
  have a: "time (last ?tr) < 1000 + 5 * 1000" by simp
  have "interpolateLocation (- 100) ?tr 1000
      = Some \<lparr>latitude = lat (hd ?tr), longitude = lon (hd ?tr)\<rparr>"
    using interpolateLocation_clamp [of ?tr 1000 "- 100"] s n b by blast
  then have r1: "interpolateLocation (- 100) ?tr 1000 = Some \<lparr>latitude = 1, longitude = 1\<rparr>"
    by simp
  have "interpolateLocation 5 ?tr 1000
      = Some \<lparr>latitude = lat (last ?tr), longitude = lon (last ?tr)\<rparr>"
    using interpolateLocation_clamp [of ?tr 1000 5] s n a by blast
  then have r2: "interpolateLocation 5 ?tr 1000 = Some \<lparr>latitude = 2, longitude = 3\<rparr>"
    by simp
  from s n b r1 a r2 show ?thesis by blast
qed




section \<open>Properties of compareDetections\<close>

subsection \<open>Category names and the per-category counters\<close>

lemma foldl_setAdd_set: "set (foldl setAdd acc xs) = set acc \<union> set xs"
  by (induction xs arbitrary: acc) (auto simp: setAdd_def)

lemma foldl_setAdd_distinct: "distinct acc \<Longrightarrow> distinct (foldl setAdd acc xs)"
  by (induction xs arbitrary: acc) (auto simp: setAdd_def)

lemma set_newSet [simp]: "set (newSet xs) = set xs"
  by (simp add: newSet_def foldl_setAdd_set)

lemma distinct_newSet [simp]: "distinct (newSet xs)"
  by (simp add: newSet_def foldl_setAdd_distinct)

lemma distinct_allClassesOf: "distinct (allClassesOf ais gts)"
  by (simp add: allClassesOf_def)

lemma set_allClassesOf:
  "set (allClassesOf ais gts)
     = (\<lambda>d. normalizeGtType (type d)) ` set gts \<union> (\<lambda>d. normalizeAiType (type d)) ` set ais"
  by (simp add: allClassesOf_def)

lemma foldl_map_upd:
  "foldl (\<lambda>m c. m(c \<mapsto> f c)) m0 cs = (\<lambda>c. if c \<in> set cs then Some (f c) else m0 c)"
  by (induction cs arbitrary: m0) (auto simp: fun_eq_iff)

lemma initPerClassData_apply:
  "initPerClassData gts cs c = (if c \<in> set cs then Some (initClassData gts c) else None)"
  by (simp add: initPerClassData_def foldl_map_upd)

lemma dom_initPerClassData: "dom (initPerClassData gts cs) = set cs"
  by (auto simp: initPerClassData_apply dom_def)

lemma total_Nil [simp]: "total f [] m = 0"
  by (simp add: total_def)

lemma total_Cons:
  "total f (c # cs) m = (case m c of None \<Rightarrow> 0 | Some d \<Rightarrow> f d) + total f cs m"
  by (simp add: total_def)

lemma total_upd_notin: "k \<notin> set cs \<Longrightarrow> total f cs (m(k \<mapsto> d')) = total f cs m"
  by (induction cs) (auto simp: total_Cons)

lemma total_upd_same:
  "m k = Some d \<Longrightarrow> f d' = f d \<Longrightarrow> total f cs (m(k \<mapsto> d')) = total f cs m"
  by (induction cs) (auto simp: total_Cons)

lemma total_upd_add:
  "distinct cs \<Longrightarrow> k \<in> set cs \<Longrightarrow> m k = Some d \<Longrightarrow> f d' = f d + x
     \<Longrightarrow> total f cs (m(k \<mapsto> d')) = total f cs m + x"
proof (induction cs)
  case Nil
  then show ?case by simp
next
  case (Cons c cs)
  show ?case
  proof (cases "c = k")
    case True
    with Cons.prems have "k \<notin> set cs" by simp
    then have eq: "total f cs (m(k \<mapsto> d')) = total f cs m" by (rule total_upd_notin)
    have "total f (c # cs) (m(k \<mapsto> d')) = f d' + total f cs (m(k \<mapsto> d'))"
      using True unfolding total_Cons by simp
    also have "\<dots> = (f d + x) + total f cs m"
      using eq Cons.prems(4) by simp
    also have "\<dots> = (f d + total f cs m) + x"
      by (simp add: add.assoc add.commute)
    also have "f d + total f cs m = total f (c # cs) m"
      using True Cons.prems(3) unfolding total_Cons by simp
    finally show ?thesis .
  next
    case False
    have "total f cs (m(k \<mapsto> d')) = total f cs m + x"
      by (rule Cons.IH) (use Cons.prems False in auto)
    then show ?thesis
      using False unfolding total_Cons by (simp add: add.assoc)
  qed
qed

lemma total_init_zero:
  "(\<forall>c\<in>set cs. \<forall>d. m c = Some d \<longrightarrow> f d = 0) \<Longrightarrow> total f cs m = 0"
  by (induction cs) (auto simp: total_Cons split: option.splits)

lemma totalsLoop_Inr:
  "\<forall>c\<in>set cs. perClassData st c \<noteq> None \<Longrightarrow>
   totalsLoop st cs t =
     Inr \<lparr>classMetrics = (\<lambda>c. if c \<in> set cs then map_option toClassMetrics (perClassData st c)
                               else classMetrics t c),
          totalTp = totalTp t + total ClassData.tp cs (perClassData st),
          totalFp = totalFp t + total ClassData.fp cs (perClassData st),
          totalFn = totalFn t + total ClassData.fn cs (perClassData st),
          totalIouSum = totalIouSum t + total ClassData.iouSum cs (perClassData st)\<rparr>"
proof (induction cs arbitrary: t)
  case Nil
  then show ?case by simp
next
  case (Cons c cs)
  then obtain d where d: "perClassData st c = Some d" by auto
  have rest: "\<forall>c\<in>set cs. perClassData st c \<noteq> None" using Cons.prems by simp
  show ?case
    using d by (auto simp: Cons.IH [OF rest] total_Cons add.assoc fun_eq_iff)
qed

subsection \<open>The detection loop\<close>

lemma aiStep_Inr:
  assumes "perClassData st (normalizeAiType (type d)) = Some cd"
  shows "aiStep thr gts st d =
     Inr (if iou (findBestMatch (matchedGtIndices st) gts d) \<ge> thr
          then \<lparr>matchedGtIndices = insert (gtIndex (findBestMatch (matchedGtIndices st) gts d))
                                     (matchedGtIndices st),
                perClassData = (perClassData st)(normalizeAiType (type d) \<mapsto>
                  cd\<lparr>ClassData.tp := ClassData.tp cd + 1,
                     ClassData.iouSum := ClassData.iouSum cd
                        + iou (findBestMatch (matchedGtIndices st) gts d)\<rparr>)\<rparr>
          else st\<lparr>perClassData := (perClassData st)(normalizeAiType (type d) \<mapsto>
                  cd\<lparr>ClassData.fp := ClassData.fp cd + 1\<rparr>)\<rparr>)"
  using assms by (simp add: aiStep_def Let_def)

lemma aiLoop_Inr:
  assumes "distinct cs" and "dom (perClassData st) = set cs"
    and "\<forall>d\<in>set ais. normalizeAiType (type d) \<in> set cs"
  shows "\<exists>st'. aiLoop thr gts ais st = Inr st'
     \<and> dom (perClassData st') = set cs
     \<and> matchedGtIndices st'
         = matchedGtIndices st \<union> gtIndex ` set (matchesOf (decisions thr gts (matchedGtIndices st) ais))
     \<and> total ClassData.tp cs (perClassData st')
         = total ClassData.tp cs (perClassData st)
           + length (matchesOf (decisions thr gts (matchedGtIndices st) ais))
     \<and> total ClassData.fp cs (perClassData st')
         = total ClassData.fp cs (perClassData st)
           + length (filter (\<lambda>x. x = None) (decisions thr gts (matchedGtIndices st) ais))
     \<and> total ClassData.fn cs (perClassData st') = total ClassData.fn cs (perClassData st)
     \<and> total ClassData.iouSum cs (perClassData st')
         = total ClassData.iouSum cs (perClassData st)
           + sum_list (map iou (matchesOf (decisions thr gts (matchedGtIndices st) ais)))"
  using assms(2,3)
proof (induction ais arbitrary: st)
  case Nil
  then show ?case by simp
next
  case (Cons d ds)
  let ?k = "normalizeAiType (type d)"
  let ?bm = "findBestMatch (matchedGtIndices st) gts d"
  have k: "?k \<in> set cs" using Cons.prems(2) by simp
  then obtain cd where cd: "perClassData st ?k = Some cd"
    using Cons.prems(1) by auto
  have rest: "\<forall>d\<in>set ds. normalizeAiType (type d) \<in> set cs"
    using Cons.prems(2) by simp
  show ?case
  proof (cases "iou ?bm \<ge> thr")
    case True
    define st1 where "st1 = \<lparr>matchedGtIndices = insert (gtIndex ?bm) (matchedGtIndices st),
        perClassData = (perClassData st)(?k \<mapsto>
          cd\<lparr>ClassData.tp := ClassData.tp cd + 1,
             ClassData.iouSum := ClassData.iouSum cd + iou ?bm\<rparr>)\<rparr>"
    have step: "aiStep thr gts st d = Inr st1"
      using aiStep_Inr [OF cd, of thr gts] True by (simp add: st1_def)
    have m1: "matchedGtIndices st1 = insert (gtIndex ?bm) (matchedGtIndices st)"
      by (simp add: st1_def)
    have dom1: "dom (perClassData st1) = set cs"
      using k Cons.prems(1) by (auto simp: st1_def)
    have tp1: "total ClassData.tp cs (perClassData st1) = total ClassData.tp cs (perClassData st) + 1"
      unfolding st1_def using total_upd_add [where m = "perClassData st" and k = "?k" and d = cd and f = ClassData.tp and x = 1, OF assms(1) k cd] by simp
    have fp1: "total ClassData.fp cs (perClassData st1) = total ClassData.fp cs (perClassData st)"
      unfolding st1_def using total_upd_same [where m = "perClassData st" and k = "?k" and d = cd and f = ClassData.fp, OF cd] by simp
    have fn1: "total ClassData.fn cs (perClassData st1) = total ClassData.fn cs (perClassData st)"
      unfolding st1_def using total_upd_same [where m = "perClassData st" and k = "?k" and d = cd and f = ClassData.fn, OF cd] by simp
    have iou1: "total ClassData.iouSum cs (perClassData st1)
        = total ClassData.iouSum cs (perClassData st) + iou ?bm"
      unfolding st1_def using total_upd_add [where m = "perClassData st" and k = "?k" and d = cd and f = ClassData.iouSum and x = "iou ?bm", OF assms(1) k cd] by simp
    have dec: "decisions thr gts (matchedGtIndices st) (d # ds)
        = Some ?bm # decisions thr gts (matchedGtIndices st1) ds"
      using True by (simp add: m1 Let_def)
    from Cons.IH [OF dom1 rest] obtain st' where
      r: "aiLoop thr gts ds st1 = Inr st'"
      and d': "dom (perClassData st') = set cs"
      and m': "matchedGtIndices st' = matchedGtIndices st1
                 \<union> gtIndex ` set (matchesOf (decisions thr gts (matchedGtIndices st1) ds))"
      and tp': "total ClassData.tp cs (perClassData st') = total ClassData.tp cs (perClassData st1)
                 + length (matchesOf (decisions thr gts (matchedGtIndices st1) ds))"
      and fp': "total ClassData.fp cs (perClassData st') = total ClassData.fp cs (perClassData st1)
                 + length (filter (\<lambda>x. x = None) (decisions thr gts (matchedGtIndices st1) ds))"
      and fn': "total ClassData.fn cs (perClassData st') = total ClassData.fn cs (perClassData st1)"
      and iou': "total ClassData.iouSum cs (perClassData st') = total ClassData.iouSum cs (perClassData st1)
                 + sum_list (map iou (matchesOf (decisions thr gts (matchedGtIndices st1) ds)))"
      by blast
    have "aiLoop thr gts (d # ds) st = Inr st'"
      using step r by simp
    moreover have "matchedGtIndices st' = matchedGtIndices st
        \<union> gtIndex ` set (matchesOf (decisions thr gts (matchedGtIndices st) (d # ds)))"
      unfolding dec m' m1 by simp
    moreover have "total ClassData.tp cs (perClassData st') = total ClassData.tp cs (perClassData st)
        + length (matchesOf (decisions thr gts (matchedGtIndices st) (d # ds)))"
      unfolding dec tp' tp1 by simp
    moreover have "total ClassData.fp cs (perClassData st') = total ClassData.fp cs (perClassData st)
        + length (filter (\<lambda>x. x = None) (decisions thr gts (matchedGtIndices st) (d # ds)))"
      unfolding dec fp' fp1 by simp
    moreover have "total ClassData.fn cs (perClassData st') = total ClassData.fn cs (perClassData st)"
      unfolding fn' fn1 by simp
    moreover have "total ClassData.iouSum cs (perClassData st') = total ClassData.iouSum cs (perClassData st)
        + sum_list (map iou (matchesOf (decisions thr gts (matchedGtIndices st) (d # ds))))"
      unfolding dec iou' iou1 by simp
    ultimately show ?thesis using d' by blast
  next
    case False
    define st1 where "st1 = st\<lparr>perClassData := (perClassData st)(?k \<mapsto>
          cd\<lparr>ClassData.fp := ClassData.fp cd + 1\<rparr>)\<rparr>"
    have step: "aiStep thr gts st d = Inr st1"
      using aiStep_Inr [OF cd, of thr gts] False by (simp add: st1_def)
    have m1: "matchedGtIndices st1 = matchedGtIndices st"
      by (simp add: st1_def)
    have dom1: "dom (perClassData st1) = set cs"
      using k Cons.prems(1) by (auto simp: st1_def)
    have tp1: "total ClassData.tp cs (perClassData st1) = total ClassData.tp cs (perClassData st)"
      unfolding st1_def using total_upd_same [where m = "perClassData st" and k = "?k" and d = cd and f = ClassData.tp, OF cd] by simp
    have fp1: "total ClassData.fp cs (perClassData st1) = total ClassData.fp cs (perClassData st) + 1"
      unfolding st1_def using total_upd_add [where m = "perClassData st" and k = "?k" and d = cd and f = ClassData.fp and x = 1, OF assms(1) k cd] by simp
    have fn1: "total ClassData.fn cs (perClassData st1) = total ClassData.fn cs (perClassData st)"
      unfolding st1_def using total_upd_same [where m = "perClassData st" and k = "?k" and d = cd and f = ClassData.fn, OF cd] by simp
    have iou1: "total ClassData.iouSum cs (perClassData st1)
        = total ClassData.iouSum cs (perClassData st)"
      unfolding st1_def using total_upd_same [where m = "perClassData st" and k = "?k" and d = cd and f = ClassData.iouSum, OF cd] by simp
    have dec: "decisions thr gts (matchedGtIndices st) (d # ds)
        = None # decisions thr gts (matchedGtIndices st1) ds"
      using False by (simp add: m1 Let_def)
    from Cons.IH [OF dom1 rest] obtain st' where
      r: "aiLoop thr gts ds st1 = Inr st'"
      and d': "dom (perClassData st') = set cs"
      and m': "matchedGtIndices st' = matchedGtIndices st1
                 \<union> gtIndex ` set (matchesOf (decisions thr gts (matchedGtIndices st1) ds))"
      and tp': "total ClassData.tp cs (perClassData st') = total ClassData.tp cs (perClassData st1)
                 + length (matchesOf (decisions thr gts (matchedGtIndices st1) ds))"
      and fp': "total ClassData.fp cs (perClassData st') = total ClassData.fp cs (perClassData st1)
                 + length (filter (\<lambda>x. x = None) (decisions thr gts (matchedGtIndices st1) ds))"
      and fn': "total ClassData.fn cs (perClassData st') = total ClassData.fn cs (perClassData st1)"
      and iou': "total ClassData.iouSum cs (perClassData st') = total ClassData.iouSum cs (perClassData st1)
                 + sum_list (map iou (matchesOf (decisions thr gts (matchedGtIndices st1) ds)))"
      by blast
    have "aiLoop thr gts (d # ds) st = Inr st'"
      using step r by simp
    moreover have "matchedGtIndices st' = matchedGtIndices st
        \<union> gtIndex ` set (matchesOf (decisions thr gts (matchedGtIndices st) (d # ds)))"
      unfolding dec m' m1 by simp
    moreover have "total ClassData.tp cs (perClassData st') = total ClassData.tp cs (perClassData st)
        + length (matchesOf (decisions thr gts (matchedGtIndices st) (d # ds)))"
      unfolding dec tp' tp1 by simp
    moreover have "total ClassData.fp cs (perClassData st') = total ClassData.fp cs (perClassData st)
        + length (filter (\<lambda>x. x = None) (decisions thr gts (matchedGtIndices st) (d # ds)))"
      unfolding dec fp' fp1 by simp
    moreover have "total ClassData.fn cs (perClassData st') = total ClassData.fn cs (perClassData st)"
      unfolding fn' fn1 by simp
    moreover have "total ClassData.iouSum cs (perClassData st') = total ClassData.iouSum cs (perClassData st)
        + sum_list (map iou (matchesOf (decisions thr gts (matchedGtIndices st) (d # ds))))"
      unfolding dec iou' iou1 by simp
    ultimately show ?thesis using d' by blast
  qed
qed

subsection \<open>The false-negative loop and the best match\<close>

lemma fnStep_cases:
  assumes "perClassData st (normalizeGtType (type g)) = Some cd"
  shows "fnStep st (i, g) =
     (if int i \<notin> matchedGtIndices st
      then st\<lparr>perClassData := (perClassData st)(normalizeGtType (type g) \<mapsto>
                cd\<lparr>ClassData.fn := ClassData.fn cd + 1\<rparr>)\<rparr>
      else st)"
  using assms by (simp add: fnStep_def Let_def)

lemma fnLoop_aux:
  assumes "distinct cs"
  shows "dom (perClassData st) = set cs \<Longrightarrow> \<forall>g\<in>set gts. normalizeGtType (type g) \<in> set cs \<Longrightarrow>
     matchedGtIndices (foldl fnStep st (enumerate n gts)) = matchedGtIndices st
   \<and> dom (perClassData (foldl fnStep st (enumerate n gts))) = set cs
   \<and> total ClassData.fn cs (perClassData (foldl fnStep st (enumerate n gts)))
       = total ClassData.fn cs (perClassData st)
         + length (filter (\<lambda>i. int i \<notin> matchedGtIndices st) [n..<n + length gts])
   \<and> total ClassData.tp cs (perClassData (foldl fnStep st (enumerate n gts)))
       = total ClassData.tp cs (perClassData st)
   \<and> total ClassData.fp cs (perClassData (foldl fnStep st (enumerate n gts)))
       = total ClassData.fp cs (perClassData st)
   \<and> total ClassData.iouSum cs (perClassData (foldl fnStep st (enumerate n gts)))
       = total ClassData.iouSum cs (perClassData st)
   \<and> (\<forall>c d'. perClassData (foldl fnStep st (enumerate n gts)) c = Some d' \<longrightarrow>
        (\<exists>d. perClassData st c = Some d \<and> ClassData.tp d' = ClassData.tp d
             \<and> ClassData.fp d' = ClassData.fp d))"
proof (induction gts arbitrary: st n)
  case Nil
  then show ?case by simp
next
  case (Cons g gs)
  let ?k = "normalizeGtType (type g)"
  have k: "?k \<in> set cs" using Cons.prems(2) by simp
  then obtain cd where cd: "perClassData st ?k = Some cd"
    using Cons.prems(1) by auto
  have rest: "\<forall>g\<in>set gs. normalizeGtType (type g) \<in> set cs"
    using Cons.prems(2) by simp
  define st1 where "st1 = fnStep st (n, g)"
  have unf: "foldl fnStep st (enumerate n (g # gs)) = foldl fnStep st1 (enumerate (Suc n) gs)"
    by (simp add: st1_def)
  have "[n..<n + length (g # gs)] = n # [Suc n..<n + length (g # gs)]"
    by (rule upt_conv_Cons) simp
  then have upt: "[n..<n + length (g # gs)] = n # [Suc n..<Suc n + length gs]"
    by simp
  have m1: "matchedGtIndices st1 = matchedGtIndices st"
    unfolding st1_def fnStep_cases [OF cd] by simp
  have dom1: "dom (perClassData st1) = set cs"
    unfolding st1_def fnStep_cases [OF cd] using k Cons.prems(1) by auto
  have fn1: "total ClassData.fn cs (perClassData st1)
      = total ClassData.fn cs (perClassData st) + (if int n \<notin> matchedGtIndices st then 1 else 0)"
    unfolding st1_def fnStep_cases [OF cd]
    using total_upd_add [where m = "perClassData st" and k = "?k" and d = cd
        and f = ClassData.fn and x = 1, OF assms k cd]
    by simp
  have tp1: "total ClassData.tp cs (perClassData st1) = total ClassData.tp cs (perClassData st)"
    unfolding st1_def fnStep_cases [OF cd]
    using total_upd_same [where m = "perClassData st" and k = "?k" and d = cd
        and f = ClassData.tp, OF cd]
    by simp
  have fp1: "total ClassData.fp cs (perClassData st1) = total ClassData.fp cs (perClassData st)"
    unfolding st1_def fnStep_cases [OF cd]
    using total_upd_same [where m = "perClassData st" and k = "?k" and d = cd
        and f = ClassData.fp, OF cd]
    by simp
  have iou1: "total ClassData.iouSum cs (perClassData st1)
      = total ClassData.iouSum cs (perClassData st)"
    unfolding st1_def fnStep_cases [OF cd]
    using total_upd_same [where m = "perClassData st" and k = "?k" and d = cd
        and f = ClassData.iouSum, OF cd]
    by simp
  have pc1: "\<forall>c d'. perClassData st1 c = Some d' \<longrightarrow>
        (\<exists>d. perClassData st c = Some d \<and> ClassData.tp d' = ClassData.tp d
             \<and> ClassData.fp d' = ClassData.fp d)"
    unfolding st1_def fnStep_cases [OF cd] using cd by auto
  let ?st' = "foldl fnStep st1 (enumerate (Suc n) gs)"
  note ih = Cons.IH [OF dom1 rest, of "Suc n"]
  note ih1 = ih [THEN conjunct1]
  note ih2 = ih [THEN conjunct2, THEN conjunct1]
  note ih3 = ih [THEN conjunct2, THEN conjunct2, THEN conjunct1]
  note ih4 = ih [THEN conjunct2, THEN conjunct2, THEN conjunct2, THEN conjunct1]
  note ih5 = ih [THEN conjunct2, THEN conjunct2, THEN conjunct2, THEN conjunct2, THEN conjunct1]
  note ih6 = ih [THEN conjunct2, THEN conjunct2, THEN conjunct2, THEN conjunct2, THEN conjunct2,
                 THEN conjunct1]
  note ih7 = ih [THEN conjunct2, THEN conjunct2, THEN conjunct2, THEN conjunct2, THEN conjunct2,
                 THEN conjunct2]
  have a: "matchedGtIndices ?st' = matchedGtIndices st"
    using ih1 m1 by simp
  have b: "dom (perClassData ?st') = set cs"
    using ih2 by simp
  have c: "total ClassData.fn cs (perClassData ?st') = total ClassData.fn cs (perClassData st)
      + length (filter (\<lambda>i. int i \<notin> matchedGtIndices st) (n # [Suc n..<Suc n + length gs]))"
    unfolding ih3 fn1 m1 by simp
  have d: "total ClassData.tp cs (perClassData ?st') = total ClassData.tp cs (perClassData st)"
    unfolding ih4 tp1 by simp
  have e: "total ClassData.fp cs (perClassData ?st') = total ClassData.fp cs (perClassData st)"
    unfolding ih5 fp1 by simp
  have f: "total ClassData.iouSum cs (perClassData ?st') = total ClassData.iouSum cs (perClassData st)"
    unfolding ih6 iou1 by simp
  have g: "\<forall>c d'. perClassData ?st' c = Some d' \<longrightarrow>
        (\<exists>d. perClassData st c = Some d \<and> ClassData.tp d' = ClassData.tp d
             \<and> ClassData.fp d' = ClassData.fp d)"
  proof (intro allI impI)
    fix c d' assume "perClassData ?st' c = Some d'"
    then obtain d1 where d1: "perClassData st1 c = Some d1" "ClassData.tp d' = ClassData.tp d1"
        "ClassData.fp d' = ClassData.fp d1"
      using ih7 by blast
    from d1(1) pc1 obtain d0 where "perClassData st c = Some d0"
        "ClassData.tp d1 = ClassData.tp d0" "ClassData.fp d1 = ClassData.fp d0"
      by blast
    with d1 show "\<exists>d. perClassData st c = Some d \<and> ClassData.tp d' = ClassData.tp d
             \<and> ClassData.fp d' = ClassData.fp d"
      by simp
  qed
  show ?case
    unfolding unf upt by (intro conjI a b c d e f g)
qed

lemma fnLoop_props:
  assumes "distinct cs" and "dom (perClassData st) = set cs"
    and "\<forall>g\<in>set gts. normalizeGtType (type g) \<in> set cs"
  shows "dom (perClassData (fnLoop gts st)) = set cs"
    and "total ClassData.fn cs (perClassData (fnLoop gts st))
       = total ClassData.fn cs (perClassData st)
         + length (filter (\<lambda>i. int i \<notin> matchedGtIndices st) [0..<length gts])"
    and "total ClassData.tp cs (perClassData (fnLoop gts st)) = total ClassData.tp cs (perClassData st)"
    and "total ClassData.fp cs (perClassData (fnLoop gts st)) = total ClassData.fp cs (perClassData st)"
    and "total ClassData.iouSum cs (perClassData (fnLoop gts st))
       = total ClassData.iouSum cs (perClassData st)"
    and "\<And>c d'. perClassData (fnLoop gts st) c = Some d' \<Longrightarrow>
        \<exists>d. perClassData st c = Some d \<and> ClassData.tp d' = ClassData.tp d
             \<and> ClassData.fp d' = ClassData.fp d"
proof -
  note aux = fnLoop_aux [OF assms, of 0, folded fnLoop_def]
  show "dom (perClassData (fnLoop gts st)) = set cs"
    using aux [THEN conjunct2, THEN conjunct1] .
  show "total ClassData.fn cs (perClassData (fnLoop gts st))
       = total ClassData.fn cs (perClassData st)
         + length (filter (\<lambda>i. int i \<notin> matchedGtIndices st) [0..<length gts])"
    using aux [THEN conjunct2, THEN conjunct2, THEN conjunct1] by simp
  show "total ClassData.tp cs (perClassData (fnLoop gts st)) = total ClassData.tp cs (perClassData st)"
    using aux [THEN conjunct2, THEN conjunct2, THEN conjunct2, THEN conjunct1] .
  show "total ClassData.fp cs (perClassData (fnLoop gts st)) = total ClassData.fp cs (perClassData st)"
    using aux [THEN conjunct2, THEN conjunct2, THEN conjunct2, THEN conjunct2, THEN conjunct1] .
  show "total ClassData.iouSum cs (perClassData (fnLoop gts st))
       = total ClassData.iouSum cs (perClassData st)"
    using aux [THEN conjunct2, THEN conjunct2, THEN conjunct2, THEN conjunct2, THEN conjunct2,
               THEN conjunct1] .
  show "\<exists>d. perClassData st c = Some d \<and> ClassData.tp d' = ClassData.tp d
             \<and> ClassData.fp d' = ClassData.fp d"
    if "perClassData (fnLoop gts st) c = Some d'" for c d'
    using that aux [THEN conjunct2, THEN conjunct2, THEN conjunct2, THEN conjunct2, THEN conjunct2,
               THEN conjunct2] by blast
qed

lemma foldl_invariant:
  assumes "I b" and "\<And>b p. p \<in> set xs \<Longrightarrow> I b \<Longrightarrow> I (f b p)"
  shows "I (foldl f b xs)"
  using assms by (induction xs arbitrary: b) auto

lemma findBestMatch_cases:
  "findBestMatch matched gts d = \<lparr>iou = - 1, gtIndex = - 1\<rparr>
   \<or> validMatch matched gts d (findBestMatch matched gts d)"
  unfolding findBestMatch_def
proof (rule foldl_invariant [where I = "\<lambda>b. b = \<lparr>iou = - 1, gtIndex = - 1\<rparr> \<or> validMatch matched gts d b"])
  show "\<lparr>iou = - 1, gtIndex = - 1\<rparr> = \<lparr>iou = - 1, gtIndex = - 1\<rparr>
      \<or> validMatch matched gts d \<lparr>iou = - 1, gtIndex = - 1\<rparr>" by simp
next
  fix b p
  assume p: "p \<in> set (enumerate 0 gts)"
    and b: "b = \<lparr>iou = - 1, gtIndex = - 1\<rparr> \<or> validMatch matched gts d b"
  obtain i g where pg: "p = (i, g)" by (cases p)
  with p have ig: "i < length gts" "gts ! i = g"
    by (auto simp: in_set_enumerate_eq)
  show "considerGt matched (normalizeAiType (type d)) (boundingBox d) b p = \<lparr>iou = - 1, gtIndex = - 1\<rparr>
      \<or> validMatch matched gts d (considerGt matched (normalizeAiType (type d)) (boundingBox d) b p)"
  proof (cases "int i \<notin> matched \<and> normalizeGtType (type g) = normalizeAiType (type d)
                 \<and> calculateIou (boundingBox d) (boundingBox g) > iou b")
    case True
    then have "considerGt matched (normalizeAiType (type d)) (boundingBox d) b p
        = \<lparr>iou = calculateIou (boundingBox d) (boundingBox g), gtIndex = int i\<rparr>"
      unfolding pg by (simp add: considerGt_def)
    moreover have "validMatch matched gts d
        \<lparr>iou = calculateIou (boundingBox d) (boundingBox g), gtIndex = int i\<rparr>"
      using True ig by (simp add: validMatch_def)
    ultimately show ?thesis by simp
  next
    case False
    then have "considerGt matched (normalizeAiType (type d)) (boundingBox d) b p = b"
      unfolding pg by (auto simp: considerGt_def Let_def)
    then show ?thesis using b by simp
  qed
qed

lemma findBestMatch_valid:
  assumes "0 \<le> thr" and "thr \<le> iou (findBestMatch matched gts d)"
  shows "validMatch matched gts d (findBestMatch matched gts d)"
  using findBestMatch_cases [of matched gts d] assms by auto

lemma decisions_valid:
  assumes "0 \<le> thr"
  shows "distinct (map gtIndex (matchesOf (decisions thr gts matched ais)))
     \<and> (\<forall>b\<in>set (matchesOf (decisions thr gts matched ais)).
          0 \<le> gtIndex b \<and> nat (gtIndex b) < length gts \<and> gtIndex b \<notin> matched)"
proof (induction ais arbitrary: matched)
  case Nil
  then show ?case by simp
next
  case (Cons d ds)
  let ?bm = "findBestMatch matched gts d"
  show ?case
  proof (cases "thr \<le> iou ?bm")
    case True
    then have v: "validMatch matched gts d ?bm"
      using assms by (intro findBestMatch_valid)
    have dec: "decisions thr gts matched (d # ds)
        = Some ?bm # decisions thr gts (insert (gtIndex ?bm) matched) ds"
      using True by (simp add: Let_def)
    show ?thesis
      unfolding dec using Cons.IH [of "insert (gtIndex ?bm) matched"] v
      by (auto simp: validMatch_def)
  next
    case False
    then have dec: "decisions thr gts matched (d # ds) = None # decisions thr gts matched ds"
      by (simp add: Let_def)
    show ?thesis unfolding dec using Cons.IH [of matched] by simp
  qed
qed

lemma decisions_length: "length (decisions thr gts matched ais) = length ais"
  by (induction ais arbitrary: matched) (simp_all add: Let_def)

lemma matchesOf_partition:
  "length (matchesOf tr) + length (filter (\<lambda>x. x = None) tr) = length tr"
  by (induction tr rule: matchesOf.induct) simp_all

lemma unmatched_count:
  assumes "\<forall>i\<in>M. 0 \<le> i \<and> nat i < n"
  shows "length (filter (\<lambda>i. int i \<notin> M) [0..<n]) + card M = n"
proof -
  define N where "N = {i. i < n \<and> int i \<in> M}"
  have MN: "M = int ` N"
  proof (intro set_eqI iffI)
    fix i assume i: "i \<in> M"
    then have "0 \<le> i" "nat i < n" using assms by auto
    then have "nat i \<in> N" "i = int (nat i)" using i by (simp_all add: N_def)
    then show "i \<in> int ` N" by (rule_tac image_eqI)
  next
    fix i assume "i \<in> int ` N"
    then show "i \<in> M" by (auto simp: N_def)
  qed
  have cN: "card M = card N"
    unfolding MN by (rule card_image) (simp add: inj_on_def)
  have sub: "N \<subseteq> {..<n}" by (auto simp: N_def)
  have fin: "finite N" using sub by (rule finite_subset) simp
  have le: "card N \<le> n" using card_mono [OF _ sub] by simp
  have st: "set (filter (\<lambda>i. int i \<notin> M) [0..<n]) = {..<n} - N"
    by (auto simp: N_def)
  have "length (filter (\<lambda>i. int i \<notin> M) [0..<n]) = card (set (filter (\<lambda>i. int i \<notin> M) [0..<n]))"
    by (rule distinct_card [symmetric]) simp
  also have "\<dots> = card ({..<n} - N)" unfolding st ..
  also have "\<dots> = n - card N" using sub fin by (simp add: card_Diff_subset)
  finally show ?thesis using le cN by simp
qed

subsection \<open>The result of compareDetections\<close>

lemma gt_classes_in_allClasses:
  "\<forall>g\<in>set gts. normalizeGtType (type g) \<in> set (allClassesOf ais gts)"
  by (simp add: set_allClassesOf)

lemma ai_classes_in_allClasses:
  "\<forall>d\<in>set ais. normalizeAiType (type d) \<in> set (allClassesOf ais gts)"
  by (simp add: set_allClassesOf)

lemma compareDetections_unfold:
  assumes loop: "aiLoop thr gts ais (initialState ais gts) = Inr st'"
    and dom': "dom (perClassData st') = set (allClassesOf ais gts)"
  shows "compareDetections ais gts thr =
    Inr \<lparr>matches = total ClassData.tp (allClassesOf ais gts) (perClassData (fnLoop gts st')),
         misses = total ClassData.fn (allClassesOf ais gts) (perClassData (fnLoop gts st')),
         falsePositives = total ClassData.fp (allClassesOf ais gts) (perClassData (fnLoop gts st')),
         averageIou =
           (if total ClassData.tp (allClassesOf ais gts) (perClassData (fnLoop gts st')) > 0
            then total ClassData.iouSum (allClassesOf ais gts) (perClassData (fnLoop gts st'))
                 / real (total ClassData.tp (allClassesOf ais gts) (perClassData (fnLoop gts st')))
            else 0),
         ValidationMetrics.precision = Prf.precision (calculatePrf
            (total ClassData.tp (allClassesOf ais gts) (perClassData (fnLoop gts st')))
            (total ClassData.fp (allClassesOf ais gts) (perClassData (fnLoop gts st')))
            (total ClassData.fn (allClassesOf ais gts) (perClassData (fnLoop gts st')))),
         ValidationMetrics.recall = Prf.recall (calculatePrf
            (total ClassData.tp (allClassesOf ais gts) (perClassData (fnLoop gts st')))
            (total ClassData.fp (allClassesOf ais gts) (perClassData (fnLoop gts st')))
            (total ClassData.fn (allClassesOf ais gts) (perClassData (fnLoop gts st')))),
         ValidationMetrics.f1Score = Prf.f1Score (calculatePrf
            (total ClassData.tp (allClassesOf ais gts) (perClassData (fnLoop gts st')))
            (total ClassData.fp (allClassesOf ais gts) (perClassData (fnLoop gts st')))
            (total ClassData.fn (allClassesOf ais gts) (perClassData (fnLoop gts st')))),
         perClassMetrics = (\<lambda>c. if c \<in> set (allClassesOf ais gts)
            then map_option toClassMetrics (perClassData (fnLoop gts st') c) else None)\<rparr>"
proof -
  let ?cs = "allClassesOf ais gts"
  have "dom (perClassData (fnLoop gts st')) = set ?cs"
    using distinct_allClassesOf dom' gt_classes_in_allClasses by (rule fnLoop_props(1))
  then have "\<forall>c\<in>set ?cs. perClassData (fnLoop gts st') c \<noteq> None"
    by auto
  note tl = totalsLoop_Inr [OF this,
      of "\<lparr>classMetrics = Map.empty, totalTp = 0, totalFp = 0, totalFn = 0, totalIouSum = 0\<rparr>"]
  show ?thesis
    using loop unfolding compareDetections_def initialState_def Let_def
    by (simp add: tl cong: if_cong)
qed

lemma compareDetections_result:
  "\<exists>r st'. compareDetections ais gts thr = Inr r
     \<and> aiLoop thr gts ais (initialState ais gts) = Inr st'
     \<and> matches r = length (matchesOf (decisions thr gts {} ais))
     \<and> falsePositives r = length (filter (\<lambda>x. x = None) (decisions thr gts {} ais))
     \<and> misses r = length (filter (\<lambda>i. int i \<notin> gtIndex ` set (matchesOf (decisions thr gts {} ais)))
                             [0..<length gts])
     \<and> averageIou r = (if matches r > 0
                        then sum_list (map iou (matchesOf (decisions thr gts {} ais))) / real (matches r)
                        else 0)
     \<and> ValidationMetrics.precision r
         = Prf.precision (calculatePrf (matches r) (falsePositives r) (misses r))
     \<and> ValidationMetrics.recall r
         = Prf.recall (calculatePrf (matches r) (falsePositives r) (misses r))
     \<and> ValidationMetrics.f1Score r
         = Prf.f1Score (calculatePrf (matches r) (falsePositives r) (misses r))
     \<and> perClassMetrics r = (\<lambda>c. if c \<in> set (allClassesOf ais gts)
            then map_option toClassMetrics (perClassData (fnLoop gts st') c) else None)"
proof -
  let ?cs = "allClassesOf ais gts"
  let ?st0 = "initialState ais gts"
  let ?tr = "decisions thr gts {} ais"
  have dc: "distinct ?cs" by (rule distinct_allClassesOf)
  have dom0: "dom (perClassData ?st0) = set ?cs"
    by (simp add: initialState_def dom_initPerClassData)
  have m0: "matchedGtIndices ?st0 = {}" by (simp add: initialState_def)
  have z: "total ClassData.tp ?cs (perClassData ?st0) = 0"
       "total ClassData.fp ?cs (perClassData ?st0) = 0"
       "total ClassData.fn ?cs (perClassData ?st0) = 0"
       "total ClassData.iouSum ?cs (perClassData ?st0) = 0"
    by (rule total_init_zero,
        simp add: initialState_def initPerClassData_apply initClassData_def split: if_splits)+
  from aiLoop_Inr [OF dc dom0 ai_classes_in_allClasses, of thr gts]
  obtain st' where loop: "aiLoop thr gts ais ?st0 = Inr st'"
    and dom': "dom (perClassData st') = set ?cs"
    and m': "matchedGtIndices st' = gtIndex ` set (matchesOf ?tr)"
    and tp': "total ClassData.tp ?cs (perClassData st') = length (matchesOf ?tr)"
    and fp': "total ClassData.fp ?cs (perClassData st') = length (filter (\<lambda>x. x = None) ?tr)"
    and fn': "total ClassData.fn ?cs (perClassData st') = 0"
    and iou': "total ClassData.iouSum ?cs (perClassData st') = sum_list (map iou (matchesOf ?tr))"
    unfolding m0 z by auto
  note fl = fnLoop_props [OF dc dom' gt_classes_in_allClasses]
  have tp: "total ClassData.tp ?cs (perClassData (fnLoop gts st')) = length (matchesOf ?tr)"
    unfolding fl(3) tp' ..
  have fp: "total ClassData.fp ?cs (perClassData (fnLoop gts st'))
      = length (filter (\<lambda>x. x = None) ?tr)"
    unfolding fl(4) fp' ..
  have fn: "total ClassData.fn ?cs (perClassData (fnLoop gts st'))
      = length (filter (\<lambda>i. int i \<notin> gtIndex ` set (matchesOf ?tr)) [0..<length gts])"
    unfolding fl(2) fn' m' by simp
  have isum: "total ClassData.iouSum ?cs (perClassData (fnLoop gts st'))
      = sum_list (map iou (matchesOf ?tr))"
    unfolding fl(5) iou' ..
  note unf = compareDetections_unfold [OF loop dom', unfolded tp fp fn isum]
  show ?thesis
    by (simp add: unf loop)
qed

subsection \<open>Metrics, counts and the empty detection list\<close>

lemma calculatePrf_precision:
  "Prf.precision (calculatePrf t p n) = (if t + p = 0 then 0 else real t / real (t + p))"
  by (simp add: calculatePrf_def Let_def)

lemma calculatePrf_recall:
  "Prf.recall (calculatePrf t p n) = (if t + n = 0 then 0 else real t / real (t + n))"
  by (simp add: calculatePrf_def Let_def)

lemma calculatePrf_f1Score:
  "Prf.f1Score (calculatePrf t p n) =
     (if Prf.precision (calculatePrf t p n) = 0 \<and> Prf.recall (calculatePrf t p n) = 0 then 0
      else harmonicMean (Prf.precision (calculatePrf t p n)) (Prf.recall (calculatePrf t p n)))"
proof (cases "t = 0")
  case True
  then show ?thesis by (simp add: calculatePrf_def Let_def)
next
  case False
  define P where "P = real t / real (t + p)"
  define R where "R = real t / real (t + n)"
  have pos: "0 < P" "0 < R" using False by (simp_all add: P_def R_def)
  have p: "Prf.precision (calculatePrf t p n) = P"
    using False by (simp add: calculatePrf_precision P_def)
  have r: "Prf.recall (calculatePrf t p n) = R"
    using False by (simp add: calculatePrf_recall R_def)
  have sum: "0 < P + R" using pos by simp
  have f: "Prf.f1Score (calculatePrf t p n) = 2 * (P * R) / (P + R)"
    using False sum unfolding P_def R_def by (simp add: calculatePrf_def Let_def)
  have "harmonicMean P R = 2 * (P * R) / (P + R)"
    using pos unfolding harmonicMean_def by (simp add: field_simps)
  then show ?thesis using pos unfolding p r f by simp
qed

lemma toClassMetrics_simps:
  "ClassMetrics.tp (toClassMetrics d) = ClassData.tp d"
  "ClassMetrics.fp (toClassMetrics d) = ClassData.fp d"
  "ClassMetrics.fn (toClassMetrics d) = ClassData.fn d"
  "ClassMetrics.precision (toClassMetrics d)
     = Prf.precision (calculatePrf (ClassData.tp d) (ClassData.fp d) (ClassData.fn d))"
  "ClassMetrics.recall (toClassMetrics d)
     = Prf.recall (calculatePrf (ClassData.tp d) (ClassData.fp d) (ClassData.fn d))"
  "ClassMetrics.f1Score (toClassMetrics d)
     = Prf.f1Score (calculatePrf (ClassData.tp d) (ClassData.fp d) (ClassData.fn d))"
  by (simp_all add: toClassMetrics_def Let_def)

text \<open>
  Claim C4. \<open>compareDetections\<close> always returns a result, in which precision is
  \<open>tp / (tp + fp)\<close> (0 when \<open>tp + fp = 0\<close>), recall is \<open>tp / (tp + fn)\<close> (0 when
  \<open>tp + fn = 0\<close>) and F1 is the harmonic mean of precision and recall (0 when both are 0),
  for the aggregate totals and for every category of \<open>perClassMetrics\<close>; and \<open>averageIou\<close> is
  the sum of the IoUs of the matched pairs divided by the total \<open>tp\<close> (0 when \<open>tp = 0\<close>).
\<close>

theorem compareDetections_metrics:
  "\<exists>r. compareDetections aiDefects gtDefects iouThreshold = Inr r
     \<and> ValidationMetrics.precision r
         = (if matches r + falsePositives r = 0 then 0
            else real (matches r) / real (matches r + falsePositives r))
     \<and> ValidationMetrics.recall r
         = (if matches r + misses r = 0 then 0 else real (matches r) / real (matches r + misses r))
     \<and> ValidationMetrics.f1Score r
         = (if ValidationMetrics.precision r = 0 \<and> ValidationMetrics.recall r = 0 then 0
            else harmonicMean (ValidationMetrics.precision r) (ValidationMetrics.recall r))
     \<and> averageIou r
         = (if matches r = 0 then 0
            else sum_list (map iou (matchesOf (decisions iouThreshold gtDefects {} aiDefects)))
                 / real (matches r))
     \<and> (\<forall>c m. perClassMetrics r c = Some m \<longrightarrow>
          ClassMetrics.precision m
            = (if ClassMetrics.tp m + ClassMetrics.fp m = 0 then 0
               else real (ClassMetrics.tp m) / real (ClassMetrics.tp m + ClassMetrics.fp m))
        \<and> ClassMetrics.recall m
            = (if ClassMetrics.tp m + ClassMetrics.fn m = 0 then 0
               else real (ClassMetrics.tp m) / real (ClassMetrics.tp m + ClassMetrics.fn m))
        \<and> ClassMetrics.f1Score m
            = (if ClassMetrics.precision m = 0 \<and> ClassMetrics.recall m = 0 then 0
               else harmonicMean (ClassMetrics.precision m) (ClassMetrics.recall m)))"
proof -
  from compareDetections_result [of aiDefects gtDefects iouThreshold]
  obtain r st' where r: "compareDetections aiDefects gtDefects iouThreshold = Inr r"
    and av: "averageIou r = (if matches r > 0
                        then sum_list (map iou (matchesOf (decisions iouThreshold gtDefects {} aiDefects)))
                             / real (matches r)
                        else 0)"
    and p: "ValidationMetrics.precision r
         = Prf.precision (calculatePrf (matches r) (falsePositives r) (misses r))"
    and rc: "ValidationMetrics.recall r
         = Prf.recall (calculatePrf (matches r) (falsePositives r) (misses r))"
    and f: "ValidationMetrics.f1Score r
         = Prf.f1Score (calculatePrf (matches r) (falsePositives r) (misses r))"
    and pc: "perClassMetrics r = (\<lambda>c. if c \<in> set (allClassesOf aiDefects gtDefects)
            then map_option toClassMetrics (perClassData (fnLoop gtDefects st') c) else None)"
    by blast
  have 1: "ValidationMetrics.precision r
         = (if matches r + falsePositives r = 0 then 0
            else real (matches r) / real (matches r + falsePositives r))"
    unfolding p by (rule calculatePrf_precision)
  have 2: "ValidationMetrics.recall r
         = (if matches r + misses r = 0 then 0 else real (matches r) / real (matches r + misses r))"
    unfolding rc by (rule calculatePrf_recall)
  have 3: "ValidationMetrics.f1Score r
         = (if ValidationMetrics.precision r = 0 \<and> ValidationMetrics.recall r = 0 then 0
            else harmonicMean (ValidationMetrics.precision r) (ValidationMetrics.recall r))"
    unfolding p rc f by (rule calculatePrf_f1Score)
  have 4: "averageIou r
         = (if matches r = 0 then 0
            else sum_list (map iou (matchesOf (decisions iouThreshold gtDefects {} aiDefects)))
                 / real (matches r))"
    unfolding av by simp
  have 5: "ClassMetrics.precision m
            = (if ClassMetrics.tp m + ClassMetrics.fp m = 0 then 0
               else real (ClassMetrics.tp m) / real (ClassMetrics.tp m + ClassMetrics.fp m))
        \<and> ClassMetrics.recall m
            = (if ClassMetrics.tp m + ClassMetrics.fn m = 0 then 0
               else real (ClassMetrics.tp m) / real (ClassMetrics.tp m + ClassMetrics.fn m))
        \<and> ClassMetrics.f1Score m
            = (if ClassMetrics.precision m = 0 \<and> ClassMetrics.recall m = 0 then 0
               else harmonicMean (ClassMetrics.precision m) (ClassMetrics.recall m))"
    if "perClassMetrics r c = Some m" for c m
  proof -
    from that obtain d where m: "m = toClassMetrics d"
      unfolding pc by (auto split: if_splits)
    show ?thesis
      unfolding m toClassMetrics_simps
      by (intro conjI calculatePrf_precision calculatePrf_recall calculatePrf_f1Score)
  qed
  show ?thesis
    using r 1 2 3 4 5 by blast
qed

text \<open>
  Claim C10. For a threshold \<open>\<ge> 0\<close> the result of \<open>compareDetections\<close> satisfies
  \<open>matches + falsePositives = number of detections\<close> and
  \<open>matches + misses = number of references\<close>.
\<close>

theorem compareDetections_count_conservation:
  assumes "0 \<le> iouThreshold"
  shows "\<exists>r. compareDetections aiDefects gtDefects iouThreshold = Inr r
     \<and> matches r + falsePositives r = length aiDefects
     \<and> matches r + misses r = length gtDefects"
proof -
  let ?tr = "decisions iouThreshold gtDefects {} aiDefects"
  from compareDetections_result [of aiDefects gtDefects iouThreshold]
  obtain r where r: "compareDetections aiDefects gtDefects iouThreshold = Inr r"
    and tp: "matches r = length (matchesOf ?tr)"
    and fp: "falsePositives r = length (filter (\<lambda>x. x = None) ?tr)"
    and fn: "misses r = length (filter (\<lambda>i. int i \<notin> gtIndex ` set (matchesOf ?tr))
                             [0..<length gtDefects])"
    by blast
  have a: "matches r + falsePositives r = length aiDefects"
    unfolding tp fp matchesOf_partition decisions_length ..
  note v = decisions_valid [OF assms, of gtDefects "{}" aiDefects]
  have "card (gtIndex ` set (matchesOf ?tr)) = length (matchesOf ?tr)"
    using v [THEN conjunct1] distinct_card [of "map gtIndex (matchesOf ?tr)"] by simp
  moreover have "\<forall>i\<in>gtIndex ` set (matchesOf ?tr). 0 \<le> i \<and> nat i < length gtDefects"
    using v [THEN conjunct2] by auto
  ultimately have b: "matches r + misses r = length gtDefects"
    unfolding tp fn using unmatched_count [of "gtIndex ` set (matchesOf ?tr)" "length gtDefects"]
    by simp
  show ?thesis using r a b by blast
qed

text \<open>
  Claim C5. With a non-empty reference list and no detections, \<open>compareDetections\<close> returns
  \<open>tp = 0\<close> and \<open>fp = 0\<close> in every category, no matches and no false positives, as many
  misses as there are references, \<open>averageIou = 0\<close>, and overall precision, recall and F1
  all 0. The function has no branch for the empty list: the values come out of the loops
  and of \<open>calculatePrf\<close>.
\<close>

theorem compareDetections_no_detections:
  assumes "gtDefects \<noteq> []"
  shows "\<exists>r. compareDetections [] gtDefects iouThreshold = Inr r
     \<and> (\<forall>c m. perClassMetrics r c = Some m \<longrightarrow> ClassMetrics.tp m = 0 \<and> ClassMetrics.fp m = 0)
     \<and> matches r = 0 \<and> falsePositives r = 0 \<and> misses r = length gtDefects
     \<and> averageIou r = 0
     \<and> ValidationMetrics.precision r = 0 \<and> ValidationMetrics.recall r = 0
     \<and> ValidationMetrics.f1Score r = 0"
proof -
  let ?cs = "allClassesOf [] gtDefects"
  let ?st0 = "initialState [] gtDefects"
  from compareDetections_result [of "[]" gtDefects iouThreshold]
  obtain r st' where r: "compareDetections [] gtDefects iouThreshold = Inr r"
    and loop: "aiLoop iouThreshold gtDefects [] ?st0 = Inr st'"
    and tp: "matches r = 0" and fp: "falsePositives r = 0"
    and fn: "misses r = length gtDefects"
    and av: "averageIou r = (if matches r > 0 then 0 / real (matches r) else 0)"
    and p: "ValidationMetrics.precision r
         = Prf.precision (calculatePrf (matches r) (falsePositives r) (misses r))"
    and rc: "ValidationMetrics.recall r
         = Prf.recall (calculatePrf (matches r) (falsePositives r) (misses r))"
    and f: "ValidationMetrics.f1Score r
         = Prf.f1Score (calculatePrf (matches r) (falsePositives r) (misses r))"
    and pc: "perClassMetrics r = (\<lambda>c. if c \<in> set ?cs
            then map_option toClassMetrics (perClassData (fnLoop gtDefects st') c) else None)"
    by auto
  have st': "st' = ?st0" using loop by simp
  have dom0: "dom (perClassData ?st0) = set ?cs"
    by (simp add: initialState_def dom_initPerClassData)
  have cls: "ClassMetrics.tp m = 0 \<and> ClassMetrics.fp m = 0" if "perClassMetrics r c = Some m" for c m
  proof -
    from that obtain d' where d': "perClassData (fnLoop gtDefects ?st0) c = Some d'"
      and m: "m = toClassMetrics d'"
      unfolding pc st' by (auto split: if_splits)
    from fnLoop_props(6) [OF distinct_allClassesOf dom0 gt_classes_in_allClasses d']
    obtain d where d: "perClassData ?st0 c = Some d"
      and eq: "ClassData.tp d' = ClassData.tp d" "ClassData.fp d' = ClassData.fp d"
      by blast
    have "ClassData.tp d = 0" "ClassData.fp d = 0"
      using d by (auto simp: initialState_def initPerClassData_apply initClassData_def split: if_splits)
    then show ?thesis unfolding m toClassMetrics_simps eq by simp
  qed
  have "averageIou r = 0" unfolding av tp by simp
  moreover have "ValidationMetrics.precision r = 0"
    unfolding p tp fp by (simp add: calculatePrf_precision)
  moreover have "ValidationMetrics.recall r = 0"
    unfolding rc tp by (simp add: calculatePrf_recall)
  moreover have "ValidationMetrics.f1Score r = 0"
    unfolding f tp by (simp add: calculatePrf_def)
  ultimately show ?thesis using r cls tp fp fn by blast
qed

subsection \<open>One-to-one matching\<close>

lemma findBestMatch_single_free:
  assumes "normalizeAiType (type d) = normalizeGtType (type g)"
    and "- 1 < calculateIou (boundingBox d) (boundingBox g)"
  shows "findBestMatch {} [g] d = \<lparr>iou = calculateIou (boundingBox d) (boundingBox g), gtIndex = 0\<rparr>"
  using assms by (simp add: findBestMatch_def considerGt_def)

lemma findBestMatch_single_taken:
  "findBestMatch {0} [g] d = \<lparr>iou = - 1, gtIndex = - 1\<rparr>"
  by (simp add: findBestMatch_def considerGt_def)

lemma decisions_two_on_one:
  assumes thr: "0 \<le> thr"
    and t1: "normalizeAiType (type d1) = normalizeGtType (type g)"
    and i1: "thr \<le> calculateIou (boundingBox d1) (boundingBox g)"
  shows "decisions thr [g] {} [d1, d2]
     = [Some \<lparr>iou = calculateIou (boundingBox d1) (boundingBox g), gtIndex = 0\<rparr>, None]"
proof -
  have "- 1 < calculateIou (boundingBox d1) (boundingBox g)"
    using thr i1 by simp
  note b1 = findBestMatch_single_free [OF t1 this]
  have "\<not> thr \<le> - 1" using thr by simp
  then show ?thesis
    using i1 by (simp add: b1 findBestMatch_single_taken)
qed

text \<open>
  Claim C1. For a threshold \<open>\<ge> 0\<close> matching is one-to-one: the references of the true
  positives are pairwise distinct (a reference matched once is never matched again), and
  their number is the reported \<open>matches\<close>. In particular, with one reference and two
  detections of its normalized type whose IoU with it reaches the threshold, the first
  detection is the true positive and the second a false positive.
\<close>

theorem compareDetections_one_to_one:
  assumes "0 \<le> iouThreshold"
  shows "distinct (map gtIndex (matchesOf (decisions iouThreshold gtDefects {} aiDefects)))
     \<and> (\<exists>r. compareDetections aiDefects gtDefects iouThreshold = Inr r
            \<and> matches r = length (matchesOf (decisions iouThreshold gtDefects {} aiDefects)))
     \<and> (normalizeAiType (type d1) = normalizeGtType (type g)
          \<and> normalizeAiType (type d2) = normalizeGtType (type g)
          \<and> iouThreshold \<le> calculateIou (boundingBox d1) (boundingBox g)
          \<and> iouThreshold \<le> calculateIou (boundingBox d2) (boundingBox g)
        \<longrightarrow> decisions iouThreshold [g] {} [d1, d2]
              = [Some \<lparr>iou = calculateIou (boundingBox d1) (boundingBox g), gtIndex = 0\<rparr>, None]
            \<and> (\<exists>r. compareDetections [d1, d2] [g] iouThreshold = Inr r
                  \<and> matches r = 1 \<and> falsePositives r = 1 \<and> misses r = 0))"
proof (intro conjI impI)
  show "distinct (map gtIndex (matchesOf (decisions iouThreshold gtDefects {} aiDefects)))"
    using decisions_valid [OF assms, of gtDefects "{}" aiDefects] by blast
  show "\<exists>r. compareDetections aiDefects gtDefects iouThreshold = Inr r
            \<and> matches r = length (matchesOf (decisions iouThreshold gtDefects {} aiDefects))"
    using compareDetections_result [of aiDefects gtDefects iouThreshold] by blast
next
  assume h: "normalizeAiType (type d1) = normalizeGtType (type g)
          \<and> normalizeAiType (type d2) = normalizeGtType (type g)
          \<and> iouThreshold \<le> calculateIou (boundingBox d1) (boundingBox g)
          \<and> iouThreshold \<le> calculateIou (boundingBox d2) (boundingBox g)"
  then have dec: "decisions iouThreshold [g] {} [d1, d2]
              = [Some \<lparr>iou = calculateIou (boundingBox d1) (boundingBox g), gtIndex = 0\<rparr>, None]"
    using decisions_two_on_one [OF assms, of d1 g d2] by blast
  show "decisions iouThreshold [g] {} [d1, d2]
              = [Some \<lparr>iou = calculateIou (boundingBox d1) (boundingBox g), gtIndex = 0\<rparr>, None]"
    by (rule dec)
  show "\<exists>r. compareDetections [d1, d2] [g] iouThreshold = Inr r
                  \<and> matches r = 1 \<and> falsePositives r = 1 \<and> misses r = 0"
    using compareDetections_result [of "[d1, d2]" "[g]" iouThreshold] unfolding dec
    by auto
qed

subsection \<open>The properties at concrete inputs\<close>

lemmas eval_defs = compareDetections_def allClassesOf_def newSet_def setAdd_def initPerClassData_def
  initClassData_def aiStep_def findBestMatch_def considerGt_def fnLoop_def fnStep_def
  toClassMetrics_def calculatePrf_def normalizeAiType_def normalizeGtType_def toLowerCase_def
  toUpperCase_def toLowerChar_def toUpperChar_def calculateIou_def interWidth_def interHeight_def
  interArea_def iouDivisor_def boxArea_def enumerate_eq_zip Let_def

theorem compareDetections_one_to_one_witness:
  "(0::real) \<le> 1 / 2
   \<and> normalizeAiType (type \<lparr>type = ''Pothole'',
         boundingBox = \<lparr>x_min = 1/10, y_min = 1/10, x_max = 3/10, y_max = 3/10\<rparr>,
         confidence = Some (9/10)\<rparr>)
       = normalizeGtType (type \<lparr>type = ''pothole'',
         boundingBox = \<lparr>x_min = 1/10, y_min = 1/10, x_max = 3/10, y_max = 3/10\<rparr>\<rparr>)
   \<and> normalizeAiType (type \<lparr>type = ''Pothole'',
         boundingBox = \<lparr>x_min = 1/10, y_min = 1/10, x_max = 3/10, y_max = 1/4\<rparr>,
         confidence = Some (8/10)\<rparr>)
       = normalizeGtType (type \<lparr>type = ''pothole'',
         boundingBox = \<lparr>x_min = 1/10, y_min = 1/10, x_max = 3/10, y_max = 3/10\<rparr>\<rparr>)
   \<and> 1 / 2 \<le> calculateIou \<lparr>x_min = 1/10, y_min = 1/10, x_max = 3/10, y_max = 3/10\<rparr>
                             \<lparr>x_min = 1/10, y_min = 1/10, x_max = 3/10, y_max = 3/10\<rparr>
   \<and> 1 / 2 \<le> calculateIou \<lparr>x_min = 1/10, y_min = 1/10, x_max = 3/10, y_max = 1/4\<rparr>
                             \<lparr>x_min = 1/10, y_min = 1/10, x_max = 3/10, y_max = 3/10\<rparr>
   \<and> decisions (1 / 2)
        [\<lparr>type = ''pothole'',
          boundingBox = \<lparr>x_min = 1/10, y_min = 1/10, x_max = 3/10, y_max = 3/10\<rparr>\<rparr>] {}
        [\<lparr>type = ''Pothole'',
          boundingBox = \<lparr>x_min = 1/10, y_min = 1/10, x_max = 3/10, y_max = 3/10\<rparr>,
          confidence = Some (9/10)\<rparr>,
         \<lparr>type = ''Pothole'',
          boundingBox = \<lparr>x_min = 1/10, y_min = 1/10, x_max = 3/10, y_max = 1/4\<rparr>,
          confidence = Some (8/10)\<rparr>]
       = [Some \<lparr>iou = 1, gtIndex = 0\<rparr>, None]
   \<and> (\<exists>r. compareDetections
        [\<lparr>type = ''Pothole'',
          boundingBox = \<lparr>x_min = 1/10, y_min = 1/10, x_max = 3/10, y_max = 3/10\<rparr>,
          confidence = Some (9/10)\<rparr>,
         \<lparr>type = ''Pothole'',
          boundingBox = \<lparr>x_min = 1/10, y_min = 1/10, x_max = 3/10, y_max = 1/4\<rparr>,
          confidence = Some (8/10)\<rparr>]
        [\<lparr>type = ''pothole'',
          boundingBox = \<lparr>x_min = 1/10, y_min = 1/10, x_max = 3/10, y_max = 3/10\<rparr>\<rparr>]
        (1 / 2) = Inr r
      \<and> matches r = 1 \<and> falsePositives r = 1 \<and> misses r = 0)"
proof -
  let ?b = "\<lparr>x_min = 1/10, y_min = 1/10, x_max = 3/10, y_max = 3/10\<rparr>"
  let ?b2 = "\<lparr>x_min = 1/10, y_min = 1/10, x_max = 3/10, y_max = 1/4\<rparr>"
  let ?g = "\<lparr>type = ''pothole'', boundingBox = ?b\<rparr>"
  let ?d1 = "\<lparr>type = ''Pothole'', boundingBox = ?b, confidence = Some (9/10)\<rparr>"
  let ?d2 = "\<lparr>type = ''Pothole'', boundingBox = ?b2, confidence = Some (8/10)\<rparr>"
  have thr: "(0::real) \<le> 1 / 2" by simp
  have t1: "normalizeAiType (type ?d1) = normalizeGtType (type ?g)"
    and t2: "normalizeAiType (type ?d2) = normalizeGtType (type ?g)"
    by (simp_all add: normalizeAiType_def normalizeGtType_def toLowerCase_def toUpperCase_def
          toLowerChar_def toUpperChar_def)
  have v1: "calculateIou ?b ?b = 1"
    by (simp add: calculateIou_def interWidth_def interHeight_def interArea_def iouDivisor_def
          boxArea_def)
  have v2: "calculateIou ?b2 ?b = 3 / 4"
    by (simp add: calculateIou_def interWidth_def interHeight_def interArea_def iouDivisor_def
          boxArea_def)
  have i1: "1 / 2 \<le> calculateIou (boundingBox ?d1) (boundingBox ?g)"
    and i2: "1 / 2 \<le> calculateIou (boundingBox ?d2) (boundingBox ?g)"
    by (simp_all add: v1 v2)
  note main = compareDetections_one_to_one [OF thr, of _ _ ?d1 ?g ?d2,
      THEN conjunct2, THEN conjunct2, rule_format, OF conjI [OF t1 conjI [OF t2 conjI [OF i1 i2]]]]
  have dec: "decisions (1 / 2) [?g] {} [?d1, ?d2] = [Some \<lparr>iou = 1, gtIndex = 0\<rparr>, None]"
    using main [THEN conjunct1] by (simp add: v1)
  show ?thesis
    using thr t1 t2 i1 i2 dec main [THEN conjunct2] by simp
qed

theorem compareDetections_count_conservation_witness:
  "(0::real) \<le> 1 / 2
   \<and> (\<exists>r. compareDetections
        [\<lparr>type = ''Pothole'',
          boundingBox = \<lparr>x_min = 1/10, y_min = 1/10, x_max = 3/10, y_max = 3/10\<rparr>,
          confidence = Some (9/10)\<rparr>,
         \<lparr>type = ''Rutting'',
          boundingBox = \<lparr>x_min = 1/2, y_min = 1/2, x_max = 3/4, y_max = 3/4\<rparr>,
          confidence = None\<rparr>]
        [\<lparr>type = ''pothole'',
          boundingBox = \<lparr>x_min = 1/10, y_min = 1/10, x_max = 3/10, y_max = 3/10\<rparr>\<rparr>,
         \<lparr>type = ''crack'',
          boundingBox = \<lparr>x_min = 0, y_min = 0, x_max = 1/10, y_max = 1/10\<rparr>\<rparr>,
         \<lparr>type = ''crack'',
          boundingBox = \<lparr>x_min = 1/2, y_min = 0, x_max = 1, y_max = 1/10\<rparr>\<rparr>]
        (1 / 2) = Inr r
      \<and> matches r + falsePositives r = 2 \<and> matches r + misses r = 3)"
proof -
  have thr: "(0::real) \<le> 1 / 2" by simp
  show ?thesis
    using thr compareDetections_count_conservation [OF thr,
      of "[\<lparr>type = ''Pothole'',
          boundingBox = \<lparr>x_min = 1/10, y_min = 1/10, x_max = 3/10, y_max = 3/10\<rparr>,
          confidence = Some (9/10)\<rparr>,
         \<lparr>type = ''Rutting'',
          boundingBox = \<lparr>x_min = 1/2, y_min = 1/2, x_max = 3/4, y_max = 3/4\<rparr>,
          confidence = None\<rparr>]"
         "[\<lparr>type = ''pothole'',
          boundingBox = \<lparr>x_min = 1/10, y_min = 1/10, x_max = 3/10, y_max = 3/10\<rparr>\<rparr>,
         \<lparr>type = ''crack'',
          boundingBox = \<lparr>x_min = 0, y_min = 0, x_max = 1/10, y_max = 1/10\<rparr>\<rparr>,
         \<lparr>type = ''crack'',
          boundingBox = \<lparr>x_min = 1/2, y_min = 0, x_max = 1, y_max = 1/10\<rparr>\<rparr>]"]
    by (simp add: numeral_2_eq_2 numeral_3_eq_3)
qed

theorem compareDetections_no_detections_witness:
  "[\<lparr>type = ''pothole'',
      boundingBox = \<lparr>x_min = 1/10, y_min = 1/10, x_max = 3/10, y_max = 3/10\<rparr>\<rparr>,
    \<lparr>type = ''crack'',
      boundingBox = \<lparr>x_min = 0, y_min = 0, x_max = 1/10, y_max = 1/10\<rparr>\<rparr>] \<noteq> []
   \<and> (\<exists>r. compareDetections []
        [\<lparr>type = ''pothole'',
          boundingBox = \<lparr>x_min = 1/10, y_min = 1/10, x_max = 3/10, y_max = 3/10\<rparr>\<rparr>,
         \<lparr>type = ''crack'',
          boundingBox = \<lparr>x_min = 0, y_min = 0, x_max = 1/10, y_max = 1/10\<rparr>\<rparr>]
        (1 / 2) = Inr r
      \<and> (\<forall>c m. perClassMetrics r c = Some m \<longrightarrow> ClassMetrics.tp m = 0 \<and> ClassMetrics.fp m = 0)
      \<and> matches r = 0 \<and> falsePositives r = 0 \<and> misses r = 2 \<and> averageIou r = 0
      \<and> ValidationMetrics.precision r = 0 \<and> ValidationMetrics.recall r = 0
      \<and> ValidationMetrics.f1Score r = 0)"
proof -
  let ?gts = "[\<lparr>type = ''pothole'',
          boundingBox = \<lparr>x_min = 1/10, y_min = 1/10, x_max = 3/10, y_max = 3/10\<rparr>\<rparr>,
         \<lparr>type = ''crack'',
          boundingBox = \<lparr>x_min = 0, y_min = 0, x_max = 1/10, y_max = 1/10\<rparr>\<rparr>]"
  have ne: "?gts \<noteq> []" by simp
  show ?thesis
    using ne compareDetections_no_detections [OF ne, of "1 / 2"] by (simp add: numeral_2_eq_2)
qed

theorem compareDetections_metrics_witness:
  "\<exists>r. compareDetections
        [\<lparr>type = ''Pothole'',
          boundingBox = \<lparr>x_min = 1/10, y_min = 1/10, x_max = 3/10, y_max = 3/10\<rparr>,
          confidence = Some (9/10)\<rparr>]
        [\<lparr>type = ''pothole'',
          boundingBox = \<lparr>x_min = 1/10, y_min = 1/10, x_max = 3/10, y_max = 3/10\<rparr>\<rparr>]
        (1 / 2) = Inr r
     \<and> matches r = 1 \<and> falsePositives r = 0 \<and> misses r = 0
     \<and> ValidationMetrics.precision r = 1 \<and> ValidationMetrics.recall r = 1
     \<and> ValidationMetrics.f1Score r = 1 \<and> averageIou r = 1
     \<and> (\<exists>m. perClassMetrics r ''Pothole'' = Some m
           \<and> ClassMetrics.tp m = 1 \<and> ClassMetrics.fp m = 0 \<and> ClassMetrics.fn m = 0
           \<and> ClassMetrics.precision m = 1 \<and> ClassMetrics.recall m = 1
           \<and> ClassMetrics.f1Score m = 1)"
proof -
  let ?b = "\<lparr>x_min = 1/10, y_min = 1/10, x_max = 3/10, y_max = 3/10\<rparr>"
  let ?ais = "[\<lparr>type = ''Pothole'', boundingBox = ?b, confidence = Some (9/10)\<rparr>]"
  let ?gts = "[\<lparr>type = ''pothole'', boundingBox = ?b\<rparr>]"
  have ev: "\<exists>r. compareDetections ?ais ?gts (1 / 2) = Inr r
      \<and> matches r = 1 \<and> falsePositives r = 0 \<and> misses r = 0
      \<and> (\<exists>m. perClassMetrics r ''Pothole'' = Some m
           \<and> ClassMetrics.tp m = 1 \<and> ClassMetrics.fp m = 0 \<and> ClassMetrics.fn m = 0)"
    by (simp add: eval_defs)
  then obtain r m where r: "compareDetections ?ais ?gts (1 / 2) = Inr r"
    and c: "matches r = 1" "falsePositives r = 0" "misses r = 0"
    and m: "perClassMetrics r ''Pothole'' = Some m"
    and cm: "ClassMetrics.tp m = 1" "ClassMetrics.fp m = 0" "ClassMetrics.fn m = 0"
    by blast
  have dec: "matchesOf (decisions (1 / 2) ?gts {} ?ais) = [\<lparr>iou = 1, gtIndex = 0\<rparr>]"
    by (simp add: eval_defs)
  from compareDetections_metrics [of ?ais ?gts "1 / 2"] r
  have p: "ValidationMetrics.precision r
         = (if matches r + falsePositives r = 0 then 0
            else real (matches r) / real (matches r + falsePositives r))"
    and rc: "ValidationMetrics.recall r
         = (if matches r + misses r = 0 then 0 else real (matches r) / real (matches r + misses r))"
    and f: "ValidationMetrics.f1Score r
         = (if ValidationMetrics.precision r = 0 \<and> ValidationMetrics.recall r = 0 then 0
            else harmonicMean (ValidationMetrics.precision r) (ValidationMetrics.recall r))"
    and av: "averageIou r
         = (if matches r = 0 then 0
            else sum_list (map iou (matchesOf (decisions (1 / 2) ?gts {} ?ais))) / real (matches r))"
    and pc: "\<forall>c m. perClassMetrics r c = Some m \<longrightarrow>
          ClassMetrics.precision m
            = (if ClassMetrics.tp m + ClassMetrics.fp m = 0 then 0
               else real (ClassMetrics.tp m) / real (ClassMetrics.tp m + ClassMetrics.fp m))
        \<and> ClassMetrics.recall m
            = (if ClassMetrics.tp m + ClassMetrics.fn m = 0 then 0
               else real (ClassMetrics.tp m) / real (ClassMetrics.tp m + ClassMetrics.fn m))
        \<and> ClassMetrics.f1Score m
            = (if ClassMetrics.precision m = 0 \<and> ClassMetrics.recall m = 0 then 0
               else harmonicMean (ClassMetrics.precision m) (ClassMetrics.recall m))"
    by auto
  have p1: "ValidationMetrics.precision r = 1" unfolding p c by simp
  have r1: "ValidationMetrics.recall r = 1" unfolding rc c by simp
  have f1: "ValidationMetrics.f1Score r = 1" unfolding f p1 r1 by (simp add: harmonicMean_def)
  have a1: "averageIou r = 1" unfolding av c dec by simp
  note pcm = pc [rule_format, OF m]
  have mp: "ClassMetrics.precision m = 1" using pcm [THEN conjunct1] unfolding cm by simp
  have mr: "ClassMetrics.recall m = 1" using pcm [THEN conjunct2, THEN conjunct1] unfolding cm by simp
  have mf: "ClassMetrics.f1Score m = 1"
    using pcm [THEN conjunct2, THEN conjunct2] unfolding mp mr by (simp add: harmonicMean_def)
  show ?thesis
    using r c p1 r1 f1 a1 m cm mp mr mf by blast
qed

end
